theory Spec2Isabelle
  imports Complex_Main "HOL-Library.Multiset"
begin

section \<open>Data model\<close>

text \<open>
  A task is a JavaScript object. Every property the code reads is a field of the record
  below; \<open>None\<close> stands for a property that is absent (it reads as \<open>undefined\<close>).
  The same record describes a task of the collection, the payload of an action and the
  object handed to the validators: all three are plain objects with these properties.
  A property that is present holds a value of its type; a property set to \<open>undefined\<close>
  is not told apart from an absent one.

  An id is \<open>null\<close> (as in \<open>DEFAULT_TASK\<close>) or a string. A date property holds
  \<open>null\<close> or a date: an ISO string or a Date object, represented by its time value, the
  milliseconds since the epoch that \<open>new Date(x)\<close> yields and that \<open><\<close>, \<open><=\<close> and
  \<open>-\<close> compare. The string \<open>toISOString\<close> returns is represented by the time value it
  denotes.
\<close>

datatype ident = IdNull | IdStr string

datatype date_val = DateNull | DateAt int

record task =
  taskId :: "ident option"
  title :: "string option"
  description :: "string option"
  isRepetitive :: "bool option"
  repetitionDays :: "string list option"
  allocatedHours :: "rat option"
  deadline :: "date_val option"
  taskType :: "string option"
  startDate :: "date_val option"
  endDate :: "date_val option"
  elapsedTime :: "int option"
  status :: "string option"
  createdAt :: "date_val option"
  updatedAt :: "date_val option"

text \<open>The object \<open>{}\<close>.\<close>

definition emptyObject :: task where
  "emptyObject =
     \<lparr>taskId = None, title = None, description = None, isRepetitive = None,
      repetitionDays = None, allocatedHours = None, deadline = None, taskType = None,
      startDate = None, endDate = None, elapsedTime = None, status = None,
      createdAt = None, updatedAt = None\<rparr>"

text \<open>\<open>constants.js\<close>: \<open>TASK_STATUS\<close> and \<open>TASK_TYPE\<close>.\<close>

abbreviation TASK_STATUS_ACTIVE :: string where "TASK_STATUS_ACTIVE \<equiv> ''active''"
abbreviation TASK_STATUS_COMPLETED :: string where "TASK_STATUS_COMPLETED \<equiv> ''completed''"
abbreviation TASK_STATUS_OVERDUE :: string where "TASK_STATUS_OVERDUE \<equiv> ''overdue''"

abbreviation TASK_TYPE_ONE_DAY :: string where "TASK_TYPE_ONE_DAY \<equiv> ''one-day''"
abbreviation TASK_TYPE_DATE_RANGE :: string where "TASK_TYPE_DATE_RANGE \<equiv> ''date-range''"

section \<open>The environment: clock, time zone, random numbers\<close>

text \<open>
  The reducer reads the system clock (\<open>new Date()\<close>, \<open>Date.now()\<close>) and draws a random
  number. During one call the \<open>n\<close>-th reading of the clock returns \<open>clock env n\<close>; the
  functions below take the number of readings made so far and return it updated.
  Local time is a fixed offset from UTC (no daylight-saving shifts), \<open>tzOffset\<close>
  milliseconds ahead of UTC. \<open>random36\<close> is the text of
  \<open>Math.random().toString(36).substr(2, 9)\<close>.
\<close>

record env =
  clock :: "nat \<Rightarrow> int"
  tzOffset :: int
  random36 :: string

definition msPerDay :: int where
  "msPerDay = 86400000"

text \<open>\<open>d.setHours(0, 0, 0, 0)\<close>: the start of the local day that holds the instant.\<close>

definition startOfDay :: "int \<Rightarrow> int \<Rightarrow> int" where
  "startOfDay tz t = ((t + tz) div msPerDay) * msPerDay - tz"

text \<open>The decimal text of a number, as a template literal prints it.\<close>

fun decimalNat :: "nat \<Rightarrow> string" where
  "decimalNat n =
     (if n < 10 then [''0123456789'' ! n]
      else decimalNat (n div 10) @ [''0123456789'' ! (n mod 10)])"

definition decimal :: "int \<Rightarrow> string" where
  "decimal i = (if i < 0 then CHR ''-'' # decimalNat (nat (- i)) else decimalNat (nat i))"

section \<open>The task reducer (\<open>reducers/taskReducer.js\<close>)\<close>

abbreviation ADD_TASK :: string where "ADD_TASK \<equiv> ''ADD_TASK''"
abbreviation UPDATE_TASK :: string where "UPDATE_TASK \<equiv> ''UPDATE_TASK''"
abbreviation DELETE_TASK :: string where "DELETE_TASK \<equiv> ''DELETE_TASK''"
abbreviation TOGGLE_COMPLETE :: string where "TOGGLE_COMPLETE \<equiv> ''TOGGLE_COMPLETE''"
abbreviation UPDATE_TIMER :: string where "UPDATE_TIMER \<equiv> ''UPDATE_TIMER''"
abbreviation RESET_TIMER :: string where "RESET_TIMER \<equiv> ''RESET_TIMER''"
abbreviation SET_TASKS :: string where "SET_TASKS \<equiv> ''SET_TASKS''"
abbreviation CLEAR_ALL_TASKS :: string where "CLEAR_ALL_TASKS \<equiv> ''CLEAR_ALL_TASKS''"
abbreviation UPDATE_TASK_STATUS :: string where "UPDATE_TASK_STATUS \<equiv> ''UPDATE_TASK_STATUS''"

text \<open>The nine values of \<open>TASK_ACTIONS\<close>.\<close>

definition TASK_ACTIONS :: "string list" where
  "TASK_ACTIONS =
     [ADD_TASK, UPDATE_TASK, DELETE_TASK, TOGGLE_COMPLETE, UPDATE_TIMER, RESET_TIMER,
      SET_TASKS, CLEAR_ALL_TASKS, UPDATE_TASK_STATUS]"

text \<open>
  An action is \<open>{type, payload}\<close>. The payload has the fixed shape of its kind: an
  object of task properties for the kinds that add to or address one task, an array of
  tasks for \<open>SET_TASKS\<close>, nothing for \<open>CLEAR_ALL_TASKS\<close> and \<open>UPDATE_TASK_STATUS\<close>.
  The record holds the payload under both shapes, and each case of the reducer reads
  the one of its kind: \<open>payload\<close> is the object, \<open>payloadTasks\<close> the array.
\<close>

record action =
  atype :: string
  payload :: task
  payloadTasks :: "task list"

text \<open>\<open>generateId\<close>, reading the clock for \<open>Date.now()\<close>.\<close>

definition generateId :: "env \<Rightarrow> nat \<Rightarrow> string \<times> nat" where
  "generateId e n = (''task_'' @ decimal (clock e n) @ ''_'' @ random36 e, Suc n)"

text \<open>
  \<open>calculateTaskStatus\<close>. \<open>task.deadline\<close> is truthy exactly when it holds a date;
  the clock is read only then.
\<close>

definition calculateTaskStatus :: "env \<Rightarrow> nat \<Rightarrow> task \<Rightarrow> string \<times> nat" where
  "calculateTaskStatus e n t =
     (if status t = Some TASK_STATUS_COMPLETED then (TASK_STATUS_COMPLETED, n)
      else
        (case deadline t of
           Some (DateAt d) \<Rightarrow>
             (let now = startOfDay (tzOffset e) (clock e n) in
              if d < now then (TASK_STATUS_OVERDUE, Suc n) else (TASK_STATUS_ACTIVE, Suc n))
         | _ \<Rightarrow> (TASK_STATUS_ACTIVE, n)))"

text \<open>
  One property of \<open>{...a, ...b}\<close>: the value in \<open>b\<close> when \<open>b\<close> has the property, the
  value in \<open>a\<close> otherwise.
\<close>

definition override :: "'a option \<Rightarrow> 'a option \<Rightarrow> 'a option" where
  "override a b = (case b of None \<Rightarrow> a | Some v \<Rightarrow> Some v)"

definition spread :: "task \<Rightarrow> task \<Rightarrow> task" where
  "spread a b =
     \<lparr>taskId = override (taskId a) (taskId b),
      title = override (title a) (title b),
      description = override (description a) (description b),
      isRepetitive = override (isRepetitive a) (isRepetitive b),
      repetitionDays = override (repetitionDays a) (repetitionDays b),
      allocatedHours = override (allocatedHours a) (allocatedHours b),
      deadline = override (deadline a) (deadline b),
      taskType = override (taskType a) (taskType b),
      startDate = override (startDate a) (startDate b),
      endDate = override (endDate a) (endDate b),
      elapsedTime = override (elapsedTime a) (elapsedTime b),
      status = override (status a) (status b),
      createdAt = override (createdAt a) (createdAt b),
      updatedAt = override (updatedAt a) (updatedAt b)\<rparr>"

text \<open>\<open>state.map(callback)\<close>, the callback reading the clock as it goes.\<close>

fun mapClock :: "(nat \<Rightarrow> task \<Rightarrow> task \<times> nat) \<Rightarrow> nat \<Rightarrow> task list \<Rightarrow> task list \<times> nat" where
  "mapClock f n [] = ([], n)"
| "mapClock f n (t # ts) =
     (let (t', n1) = f n t; (ts', n2) = mapClock f n1 ts in (t' # ts', n2))"

text \<open>The body of the \<open>ADD_TASK\<close> case: the object literal, its properties in order.\<close>

definition newTask :: "env \<Rightarrow> task \<Rightarrow> task" where
  "newTask e p =
     (let (newId, n1) = generateId e 0;
          created = clock e n1;
          updated = clock e (Suc n1)
      in (spread emptyObject p)
           \<lparr>taskId := Some (IdStr newId),
            createdAt := Some (DateAt created),
            updatedAt := Some (DateAt updated),
            status := Some TASK_STATUS_ACTIVE,
            elapsedTime := Some 0\<rparr>)"

text \<open>The callbacks of the \<open>map\<close> cases.\<close>

definition updateTask :: "env \<Rightarrow> task \<Rightarrow> nat \<Rightarrow> task \<Rightarrow> task \<times> nat" where
  "updateTask e p n t =
     (if taskId t = taskId p then
        (let updatedTask = (spread t p)\<lparr>updatedAt := Some (DateAt (clock e n))\<rparr>;
             (newStatus, n1) = calculateTaskStatus e (Suc n) updatedTask
         in (updatedTask\<lparr>status := Some newStatus\<rparr>, n1))
      else (t, n))"

definition toggleComplete :: "env \<Rightarrow> task \<Rightarrow> nat \<Rightarrow> task \<Rightarrow> task \<times> nat" where
  "toggleComplete e p n t =
     (if taskId t = taskId p then
        (let newStatus =
               (if status t = Some TASK_STATUS_COMPLETED then TASK_STATUS_ACTIVE
                else TASK_STATUS_COMPLETED)
         in (t\<lparr>status := Some newStatus, updatedAt := Some (DateAt (clock e n))\<rparr>, Suc n))
      else (t, n))"

definition updateTimer :: "env \<Rightarrow> task \<Rightarrow> nat \<Rightarrow> task \<Rightarrow> task \<times> nat" where
  "updateTimer e p n t =
     (if taskId t = taskId p then
        (t\<lparr>elapsedTime := elapsedTime p, updatedAt := Some (DateAt (clock e n))\<rparr>, Suc n)
      else (t, n))"

definition resetTimer :: "env \<Rightarrow> task \<Rightarrow> nat \<Rightarrow> task \<Rightarrow> task \<times> nat" where
  "resetTimer e p n t =
     (if taskId t = taskId p then
        (t\<lparr>elapsedTime := Some 0, updatedAt := Some (DateAt (clock e n))\<rparr>, Suc n)
      else (t, n))"

definition updateTaskStatus :: "env \<Rightarrow> nat \<Rightarrow> task \<Rightarrow> task \<times> nat" where
  "updateTaskStatus e n t =
     (let (newStatus, n1) = calculateTaskStatus e n t in
      if status t \<noteq> Some newStatus then
        (t\<lparr>status := Some newStatus, updatedAt := Some (DateAt (clock e n1))\<rparr>, Suc n1)
      else (t, n1))"

text \<open>
  \<open>taskReducer\<close>. The result is \<open>Inr\<close> the new collection, or \<open>Inl\<close> the message of
  the \<open>Error\<close> that the default case throws.
\<close>

definition taskReducer :: "env \<Rightarrow> task list \<Rightarrow> action \<Rightarrow> string + task list" where
  "taskReducer e state a =
     (if atype a = ADD_TASK then Inr (state @ [newTask e (payload a)])
      else if atype a = UPDATE_TASK then Inr (fst (mapClock (updateTask e (payload a)) 0 state))
      else if atype a = DELETE_TASK then
        Inr (filter (\<lambda>t. taskId t \<noteq> taskId (payload a)) state)
      else if atype a = TOGGLE_COMPLETE then
        Inr (fst (mapClock (toggleComplete e (payload a)) 0 state))
      else if atype a = UPDATE_TIMER then Inr (fst (mapClock (updateTimer e (payload a)) 0 state))
      else if atype a = RESET_TIMER then Inr (fst (mapClock (resetTimer e (payload a)) 0 state))
      else if atype a = SET_TASKS then Inr (payloadTasks a)
      else if atype a = CLEAR_ALL_TASKS then Inr []
      else if atype a = UPDATE_TASK_STATUS then Inr (fst (mapClock (updateTaskStatus e) 0 state))
      else Inl (''Unhandled action type: '' @ atype a))"

section \<open>Dispatching a sequence of actions\<close>

text \<open>
  \<open>useReducer\<close> applies the dispatched actions one after the other, each call of the
  reducer in its own environment. An action the reducer throws on ends the run.
\<close>

fun dispatchAll :: "task list \<Rightarrow> (env \<times> action) list \<Rightarrow> string + task list" where
  "dispatchAll state [] = Inr state"
| "dispatchAll state ((e, a) # rest) =
     (case taskReducer e state a of
        Inl err \<Rightarrow> Inl err
      | Inr state' \<Rightarrow> dispatchAll state' rest)"

section \<open>Validation (\<open>utils/validation.js\<close>)\<close>

abbreviation TITLE_REQUIRED :: string where
  "TITLE_REQUIRED \<equiv> ''Task title is required''"
abbreviation TITLE_MIN_LENGTH :: string where
  "TITLE_MIN_LENGTH \<equiv> ''Title must be at least 3 characters''"
abbreviation DESCRIPTION_MIN_LENGTH :: string where
  "DESCRIPTION_MIN_LENGTH \<equiv> ''Description must be at least 10 characters''"
abbreviation HOURS_INVALID :: string where
  "HOURS_INVALID \<equiv> ''Allocated hours must be greater than 0''"
abbreviation DEADLINE_INVALID :: string where
  "DEADLINE_INVALID \<equiv> ''Deadline must be a future date''"
abbreviation REPETITION_DAYS_REQUIRED :: string where
  "REPETITION_DAYS_REQUIRED \<equiv> ''Please select at least one day for repetitive tasks''"
abbreviation DATE_RANGE_INVALID :: string where
  "DATE_RANGE_INVALID \<equiv> ''End date must be after start date''"

text \<open>
  \<open>String.prototype.trim\<close> on the ASCII white space and line terminators: tab, line
  feed, vertical tab, form feed, carriage return and space.
\<close>

definition isWhiteSpace :: "char \<Rightarrow> bool" where
  "isWhiteSpace c = (of_char c \<in> {9, 10, 11, 12, 13, 32 :: nat})"

definition trim :: "string \<Rightarrow> string" where
  "trim s = rev (dropWhile isWhiteSpace (rev (dropWhile isWhiteSpace s)))"

text \<open>
  A validator returns \<open>Some\<close> message, or \<open>None\<close> for the \<open>null\<close> of a valid value.
  \<open>!title\<close> holds for an absent title and for the empty string.
\<close>

definition validateTitle :: "string option \<Rightarrow> string option" where
  "validateTitle t =
     (case t of
        None \<Rightarrow> Some TITLE_REQUIRED
      | Some s \<Rightarrow>
          if s = [] \<or> length (trim s) = 0 then Some TITLE_REQUIRED
          else if length (trim s) < 3 then Some TITLE_MIN_LENGTH
          else None)"

definition validateDescription :: "string option \<Rightarrow> string option" where
  "validateDescription d =
     (case d of
        None \<Rightarrow> None
      | Some s \<Rightarrow>
          if s = [] \<or> length (trim s) = 0 then None
          else if length (trim s) < 10 then Some DESCRIPTION_MIN_LENGTH
          else None)"

text \<open>\<open>Number(undefined)\<close> is \<open>NaN\<close>, which the check refuses.\<close>

definition validateHours :: "rat option \<Rightarrow> string option" where
  "validateHours h =
     (case h of
        None \<Rightarrow> Some HOURS_INVALID
      | Some numHours \<Rightarrow> if numHours \<le> 0 then Some HOURS_INVALID else None)"

definition validateDeadline :: "env \<Rightarrow> nat \<Rightarrow> date_val option \<Rightarrow> string option \<times> nat" where
  "validateDeadline e n dl =
     (case dl of
        Some (DateAt deadlineDate) \<Rightarrow>
          (let today = startOfDay (tzOffset e) (clock e n) in
           if deadlineDate < today then (Some DEADLINE_INVALID, Suc n) else (None, Suc n))
      | _ \<Rightarrow> (None, n))"

definition validateRepetitionDays :: "bool option \<Rightarrow> string list option \<Rightarrow> string option" where
  "validateRepetitionDays isRep days =
     (if isRep \<noteq> Some True then None
      else
        (case days of
           None \<Rightarrow> Some REPETITION_DAYS_REQUIRED
         | Some ds \<Rightarrow> if length ds = 0 then Some REPETITION_DAYS_REQUIRED else None))"

definition validateDateRange :: "date_val option \<Rightarrow> date_val option \<Rightarrow> string option" where
  "validateDateRange sd ed =
     (case (sd, ed) of
        (Some (DateAt startD), Some (DateAt endD)) \<Rightarrow>
          if endD < startD then Some DATE_RANGE_INVALID else None
      | _ \<Rightarrow> None)"

text \<open>
  \<open>validateTask\<close>: the \<open>errors\<close> object, from field name to message. \<open>setError\<close> is
  \<open>if (error) errors[field] = error\<close>; every message is a non-empty string, hence
  truthy.
\<close>

definition setError :: "string \<Rightarrow> string option \<Rightarrow> (string \<rightharpoonup> string) \<Rightarrow> (string \<rightharpoonup> string)" where
  "setError field err errors = (case err of None \<Rightarrow> errors | Some msg \<Rightarrow> errors(field \<mapsto> msg))"

definition validateTask :: "env \<Rightarrow> task \<Rightarrow> (string \<rightharpoonup> string)" where
  "validateTask e t =
     (let errors0 = Map.empty;
          errors1 = setError ''title'' (validateTitle (title t)) errors0;
          errors2 = setError ''description'' (validateDescription (description t)) errors1;
          errors3 =
            (case allocatedHours t of
               None \<Rightarrow> errors2
             | Some h \<Rightarrow>
                 if h = 0 then errors2
                 else setError ''allocatedHours'' (validateHours (allocatedHours t)) errors2);
          errors4 = setError ''deadline'' (fst (validateDeadline e 0 (deadline t))) errors3;
          errors5 =
            setError ''repetitionDays''
              (validateRepetitionDays (isRepetitive t) (repetitionDays t)) errors4
      in setError ''dateRange'' (validateDateRange (startDate t) (endDate t)) errors5)"

definition hasErrors :: "(string \<rightharpoonup> string) \<Rightarrow> bool" where
  "hasErrors errors = (errors \<noteq> Map.empty)"

section \<open>The timer hook (\<open>useTimer\<close>)\<close>

abbreviation TIMER_IDLE :: string where "TIMER_IDLE \<equiv> ''idle''"
abbreviation TIMER_RUNNING :: string where "TIMER_RUNNING \<equiv> ''running''"
abbreviation TIMER_PAUSED :: string where "TIMER_PAUSED \<equiv> ''paused''"

text \<open>
  The time is a JavaScript number holding an integer, and \<open>prevTime + 1\<close> is an
  addition of doubles: exact up to \<open>2^53 = 9007199254740992\<close> in magnitude, rounded to
  the nearest double (ties to the even significand) beyond. \<open>ulpOf a\<close> is the distance
  between neighbouring doubles at the magnitude \<open>a\<close>, \<open>roundMagnitude\<close> rounds a
  magnitude to a double and \<open>roundToDouble\<close> an integer of either sign.
\<close>

function ulpOf :: "int \<Rightarrow> int" where
  "ulpOf a = (if a < 9007199254740992 then 1 else 2 * ulpOf (a div 2))"
  by pat_completeness auto
termination
proof (relation "measure nat")
  show "wf (measure nat)" by simp
next
  fix a :: int
  assume "\<not> a < 9007199254740992"
  then have "0 < a" by linarith
  then show "(a div 2, a) \<in> measure nat" by simp
qed

declare ulpOf.simps [simp del]

definition roundMagnitude :: "int \<Rightarrow> int" where
  "roundMagnitude a =
     (let u = ulpOf a;
          q = a div u;
          r = a mod u
      in if u < 2 * r \<or> (u = 2 * r \<and> odd q) then (q + 1) * u else q * u)"

definition roundToDouble :: "int \<Rightarrow> int" where
  "roundToDouble x = (if x < 0 then - roundMagnitude (- x) else roundMagnitude x)"

definition plusOne :: "int \<Rightarrow> int" where
  "plusOne prevTime = roundToDouble (prevTime + 1)"

text \<open>
  The state of one \<open>useTimer(initialTime)\<close>: the two state cells \<open>time\<close> and
  \<open>timerState\<close>, the ref cell that holds the handle of the interval, and the intervals
  that are live in the browser (\<open>setInterval\<close> adds a handle, \<open>clearInterval\<close> removes
  it; handles are positive, so a stored handle is truthy). \<open>initialTime\<close> is the
  argument the hook was called with at the latest render: the state cell \<open>time\<close> takes
  it at the first render only, while \<open>reset\<close>, a \<open>useCallback\<close> with the dependency
  \<open>[initialTime]\<close>, is made anew whenever the argument changes and so reads the latest
  one. Each step runs to completion, with a render between two steps, so that \<open>start\<close>
  and \<open>pause\<close> see the current \<open>timerState\<close>.
\<close>

record timer =
  initialTime :: int
  time :: int
  timerState :: string
  intervalRef :: "nat option"
  liveIntervals :: "nat list"
  nextHandle :: nat

text \<open>The first render, \<open>useTimer(initial)\<close>.\<close>

definition useTimer :: "int \<Rightarrow> timer" where
  "useTimer initial =
     \<lparr>initialTime = initial, time = initial, timerState = TIMER_IDLE, intervalRef = None,
      liveIntervals = [], nextHandle = 1\<rparr>"

text \<open>
  A later render, in which the component calls \<open>useTimer(arg)\<close> again. The only caller,
  the \<open>Timer\<close> component, passes \<open>task.elapsedTime || 0\<close>, which its effect rewrites
  through \<open>UPDATE_TIMER\<close> after every tick.
\<close>

definition render :: "int \<Rightarrow> timer \<Rightarrow> timer" where
  "render arg tm = tm\<lparr>initialTime := arg\<rparr>"

definition start :: "timer \<Rightarrow> timer" where
  "start tm =
     (if timerState tm = TIMER_RUNNING then tm
      else tm\<lparr>timerState := TIMER_RUNNING,
              intervalRef := Some (nextHandle tm),
              liveIntervals := nextHandle tm # liveIntervals tm,
              nextHandle := Suc (nextHandle tm)\<rparr>)"

text \<open>
  One second passes: the callback of every live interval runs once, each a
  \<open>setTime(prevTime => prevTime + 1)\<close>.
\<close>

definition tick :: "timer \<Rightarrow> timer" where
  "tick tm = tm\<lparr>time := fold (\<lambda>h prevTime. plusOne prevTime) (liveIntervals tm) (time tm)\<rparr>"

definition clearRef :: "timer \<Rightarrow> timer" where
  "clearRef tm =
     (case intervalRef tm of
        None \<Rightarrow> tm
      | Some h \<Rightarrow> tm\<lparr>liveIntervals := removeAll h (liveIntervals tm), intervalRef := None\<rparr>)"

definition pause :: "timer \<Rightarrow> timer" where
  "pause tm =
     (if timerState tm \<noteq> TIMER_RUNNING then tm
      else clearRef (tm\<lparr>timerState := TIMER_PAUSED\<rparr>))"

definition reset :: "timer \<Rightarrow> timer" where
  "reset tm = (clearRef tm)\<lparr>time := initialTime tm, timerState := TIMER_IDLE\<rparr>"

text \<open>\<open>setTimeDirect\<close>, which the hook returns as \<open>setTime\<close>.\<close>

definition setTimeDirect :: "int \<Rightarrow> timer \<Rightarrow> timer" where
  "setTimeDirect newTime tm = tm\<lparr>time := newTime\<rparr>"

datatype timerStep = Start | Tick | Pause | Render int | SetTime int

fun timerDo :: "timer \<Rightarrow> timerStep \<Rightarrow> timer" where
  "timerDo tm Start = start tm"
| "timerDo tm Tick = tick tm"
| "timerDo tm Pause = pause tm"
| "timerDo tm (Render arg) = render arg tm"
| "timerDo tm (SetTime newTime) = setTimeDirect newTime tm"

definition runTimer :: "timer \<Rightarrow> timerStep list \<Rightarrow> timer" where
  "runTimer tm steps = foldl timerDo tm steps"

section \<open>Persistence (\<open>utils/localStorage.js\<close>)\<close>

text \<open>
  \<open>window.localStorage\<close>: the stored items, a quota on their total size (key and value
  lengths, as \<open>getStorageSize\<close> counts them), and whether access is disabled (every
  access then throws). \<open>None\<close> is a thrown exception.
\<close>

record storage =
  items :: "(string \<times> string) list"
  quota :: nat
  disabled :: bool

definition storageSize :: "(string \<times> string) list \<Rightarrow> nat" where
  "storageSize its = sum_list (map (\<lambda>(k, v). length k + length v) its)"

definition setItem :: "storage \<Rightarrow> string \<Rightarrow> string \<Rightarrow> storage option" where
  "setItem st k v =
     (if disabled st then None
      else
        (let its = (k, v) # filter (\<lambda>(k', _). k' \<noteq> k) (items st) in
         if quota st < storageSize its then None else Some (st\<lparr>items := its\<rparr>)))"

definition getItem :: "storage \<Rightarrow> string \<Rightarrow> string option option" where
  "getItem st k = (if disabled st then None else Some (map_of (items st) k))"

text \<open>
  \<open>JSON.stringify\<close> and \<open>JSON.parse\<close> belong to the engine; the adapter takes them as
  parameters. \<open>JSON.stringify\<close> throws, returns \<open>undefined\<close> (which \<open>setItem\<close> stores
  as the text \<open>undefined\<close>) or returns a text; \<open>JSON.parse\<close> returns a value or throws
  (\<open>None\<close>).
\<close>

datatype json_text = JThrows | JUndefined | JText string

definition saveToStorage ::
    "('v \<Rightarrow> json_text) \<Rightarrow> storage \<Rightarrow> string \<Rightarrow> 'v \<Rightarrow> bool \<times> storage" where
  "saveToStorage stringify st key val =
     (case stringify val of
        JThrows \<Rightarrow> (False, st)
      | JUndefined \<Rightarrow>
          (case setItem st key ''undefined'' of
             None \<Rightarrow> (False, st)
           | Some st' \<Rightarrow> (True, st'))
      | JText serializedValue \<Rightarrow>
          (case setItem st key serializedValue of
             None \<Rightarrow> (False, st)
           | Some st' \<Rightarrow> (True, st')))"

definition loadFromStorage ::
    "(string \<Rightarrow> 'v option) \<Rightarrow> storage \<Rightarrow> string \<Rightarrow> 'v \<Rightarrow> 'v" where
  "loadFromStorage parse st key defaultValue =
     (case getItem st key of
        None \<Rightarrow> defaultValue
      | Some None \<Rightarrow> defaultValue
      | Some (Some serializedValue) \<Rightarrow>
          (case parse serializedValue of
             None \<Rightarrow> defaultValue
           | Some v \<Rightarrow> v))"

section \<open>The filtered and sorted list (\<open>components/TaskList.jsx\<close>)\<close>

text \<open>
  Arrays are mutable and shared by reference, and \<open>Array.prototype.sort\<close> sorts in
  place. The heap holds the arrays allocated so far; a reference to an array is its
  index in the heap. \<open>filter\<close> and the spread \<open>[...result]\<close> allocate a new array.
\<close>

type_synonym heap = "task list list"

definition alloc :: "heap \<Rightarrow> task list \<Rightarrow> heap \<times> nat" where
  "alloc h xs = (h @ [xs], length h)"

text \<open>
  \<open>new Date(x).getTime()\<close>: \<open>None\<close> is \<open>NaN\<close>, the time value of an invalid date.
  \<open>new Date(undefined)\<close> is invalid, \<open>new Date(null)\<close> is the epoch. The difference of
  two dates is \<open>NaN\<close> when either is invalid.
\<close>

definition timeValue :: "date_val option \<Rightarrow> int option" where
  "timeValue d = (case d of None \<Rightarrow> None | Some DateNull \<Rightarrow> Some 0 | Some (DateAt t) \<Rightarrow> Some t)"

definition minusDate :: "date_val option \<Rightarrow> date_val option \<Rightarrow> int option" where
  "minusDate x y =
     (case (timeValue x, timeValue y) of
        (Some a, Some b) \<Rightarrow> Some (a - b)
      | _ \<Rightarrow> None)"

definition truthyDate :: "date_val option \<Rightarrow> bool" where
  "truthyDate d = (case d of Some (DateAt _) \<Rightarrow> True | _ \<Rightarrow> False)"

text \<open>
  The comparator handed to \<open>sort\<close>. Its result is a number (\<open>None\<close> for \<open>NaN\<close>), or the
  \<open>TypeError\<close> of \<open>a.title.localeCompare\<close> on a task without a title.
  \<open>localeCompare\<close> belongs to the engine and is a parameter; an absent \<open>b.title\<close> is
  compared as the text \<open>undefined\<close>.
\<close>

definition compareTasks ::
    "(string \<Rightarrow> string \<Rightarrow> int) \<Rightarrow> string \<Rightarrow> task \<Rightarrow> task \<Rightarrow> string + int option" where
  "compareTasks localeCompare sortBy a b =
     (if sortBy = ''createdAt'' then Inr (minusDate (createdAt b) (createdAt a))
      else if sortBy = ''deadline'' then
        (if \<not> truthyDate (deadline a) then Inr (Some 1)
         else if \<not> truthyDate (deadline b) then Inr (Some (- 1))
         else Inr (minusDate (deadline a) (deadline b)))
      else if sortBy = ''title'' then
        (case title a of
           None \<Rightarrow> Inl ''TypeError: Cannot read properties of undefined''
         | Some ta \<Rightarrow>
             Inr (Some (localeCompare ta (case title b of None \<Rightarrow> ''undefined'' | Some tb \<Rightarrow> tb))))
      else Inr (Some 0))"

text \<open>
  \<open>Array.prototype.sort\<close> belongs to the engine. ECMAScript asks for a stable sort and
  reads a comparator result of \<open>NaN\<close> as \<open>+0\<close>; for a consistent comparator that fixes
  the result. The model is the stable insertion sort: each element in turn goes in
  front of the first element of the sorted part that the comparator puts after it.
\<close>

definition negative :: "int option \<Rightarrow> bool" where
  "negative v = (case v of None \<Rightarrow> False | Some n \<Rightarrow> n < 0)"

fun insertSorted :: "('a \<Rightarrow> 'a \<Rightarrow> string + int option) \<Rightarrow> 'a \<Rightarrow> 'a list \<Rightarrow> string + 'a list" where
  "insertSorted cmp x [] = Inr [x]"
| "insertSorted cmp x (y # ys) =
     (case cmp x y of
        Inl err \<Rightarrow> Inl err
      | Inr v \<Rightarrow>
          if negative v then Inr (x # y # ys)
          else
            (case insertSorted cmp x ys of
               Inl err \<Rightarrow> Inl err
             | Inr zs \<Rightarrow> Inr (y # zs)))"

fun sortInto :: "('a \<Rightarrow> 'a \<Rightarrow> string + int option) \<Rightarrow> 'a list \<Rightarrow> 'a list \<Rightarrow> string + 'a list" where
  "sortInto cmp acc [] = Inr acc"
| "sortInto cmp acc (x # xs) =
     (case insertSorted cmp x acc of
        Inl err \<Rightarrow> Inl err
      | Inr acc' \<Rightarrow> sortInto cmp acc' xs)"

definition arraySort :: "('a \<Rightarrow> 'a \<Rightarrow> string + int option) \<Rightarrow> 'a list \<Rightarrow> string + 'a list" where
  "arraySort cmp xs = sortInto cmp [] xs"

text \<open>
  The body of the \<open>useMemo\<close> of \<open>filteredAndSortedTasks\<close>: \<open>tasks\<close> is the reference to
  the collection. The result is the heap afterwards and the reference returned, or the
  error thrown.
\<close>

definition filteredAndSortedTasks ::
    "(string \<Rightarrow> string \<Rightarrow> int) \<Rightarrow> heap \<Rightarrow> nat \<Rightarrow> string \<Rightarrow> string \<Rightarrow> string + heap \<times> nat" where
  "filteredAndSortedTasks localeCompare h tasks filterStatus sortBy =
     (let (h1, result) =
            (if filterStatus \<noteq> ''all''
             then alloc h (filter (\<lambda>t. status t = Some filterStatus) (h ! tasks))
             else (h, tasks));
          (h2, copy) = alloc h1 (h1 ! result)
      in case arraySort (compareTasks localeCompare sortBy) (h2 ! copy) of
           Inl err \<Rightarrow> Inl err
         | Inr sortedCopy \<Rightarrow> Inr (h2[copy := sortedCopy], copy))"

text \<open>
  The order to be shown of a list sorted by deadline, between an element and a later
  one: when the later task has a deadline, the earlier one has a deadline too, and it is
  not after the later one.
\<close>

definition deadlineOrder :: "task \<Rightarrow> task \<Rightarrow> bool" where
  "deadlineOrder a b =
     (case deadline b of
        Some (DateAt tb) \<Rightarrow> (case deadline a of Some (DateAt ta) \<Rightarrow> ta \<le> tb | _ \<Rightarrow> False)
      | _ \<Rightarrow> True)"

section \<open>The calendar buckets (\<open>components/Calendar.jsx\<close>)\<close>

text \<open>
  \<open>Array.prototype.includes\<close> compares objects by identity, so a task of the
  collection is a pair of its address and its contents. The \<open>Map\<close> is keyed by
  \<open>toDateString()\<close>, the local calendar day, represented by the number of the day since
  the epoch.
\<close>

type_synonym taskRef = "nat \<times> task"

type_synonym buckets = "int \<Rightarrow> taskRef list option"

definition dayKey :: "int \<Rightarrow> int \<Rightarrow> int" where
  "dayKey tz t = (t + tz) div msPerDay"

text \<open>\<open>getDayName\<close> (\<open>utils/dateHelpers.js\<close>); the first of January 1970 was a Thursday.\<close>

definition getDay :: "int \<Rightarrow> int \<Rightarrow> nat" where
  "getDay tz t = nat ((dayKey tz t + 4) mod 7)"

definition getDayName :: "int \<Rightarrow> int \<Rightarrow> string" where
  "getDayName tz t =
     [''sunday'', ''monday'', ''tuesday'', ''wednesday'', ''thursday'', ''friday'', ''saturday'']
       ! getDay tz t"

definition includesRef :: "taskRef list \<Rightarrow> taskRef \<Rightarrow> bool" where
  "includesRef bucket r = (fst r \<in> set (map fst bucket))"

text \<open>\<open>if (!map.has(dateKey)) map.set(dateKey, [])\<close>, and \<open>map.get(dateKey)\<close> after it.\<close>

definition ensureKey :: "buckets \<Rightarrow> int \<Rightarrow> buckets" where
  "ensureKey m k = (case m k of None \<Rightarrow> m(k \<mapsto> []) | Some _ \<Rightarrow> m)"

definition bucketOf :: "buckets \<Rightarrow> int \<Rightarrow> taskRef list" where
  "bucketOf m k = (case m k of None \<Rightarrow> [] | Some b \<Rightarrow> b)"

definition push :: "buckets \<Rightarrow> int \<Rightarrow> taskRef \<Rightarrow> buckets" where
  "push m k r = (let m1 = ensureKey m k in m1(k \<mapsto> bucketOf m1 k @ [r]))"

definition pushIfNew :: "buckets \<Rightarrow> int \<Rightarrow> taskRef \<Rightarrow> buckets" where
  "pushIfNew m k r =
     (let m1 = ensureKey m k in
      if \<not> includesRef (bucketOf m1 k) r then m1(k \<mapsto> bucketOf m1 k @ [r]) else m1)"

text \<open>
  The \<open>for\<close> loop over the days of a range: \<open>d.setDate(d.getDate() + 1)\<close> moves \<open>d\<close> one
  day on.
\<close>

function rangeLoop :: "int \<Rightarrow> taskRef \<Rightarrow> int \<Rightarrow> int \<Rightarrow> buckets \<Rightarrow> buckets" where
  "rangeLoop tz r d rangeEnd m =
     (if d \<le> rangeEnd
      then rangeLoop tz r (d + msPerDay) rangeEnd (pushIfNew m (dayKey tz d) r)
      else m)"
  by pat_completeness auto
termination
  by (relation "measure (\<lambda>(tz, r, d, rangeEnd, m). nat (rangeEnd - d + 1))") (auto simp: msPerDay_def)

text \<open>\<open>calendarDays.forEach\<close> for a repetitive task.\<close>

fun repeatLoop :: "int \<Rightarrow> taskRef \<Rightarrow> string list \<Rightarrow> int list \<Rightarrow> buckets \<Rightarrow> buckets" where
  "repeatLoop tz r days [] m = m"
| "repeatLoop tz r days (day # rest) m =
     repeatLoop tz r days rest
       (if getDayName tz day \<in> set days then pushIfNew m (dayKey tz day) r else m)"

text \<open>
  The body of \<open>tasks.forEach\<close>, rule by rule. An invalid start date (\<open>startDate\<close>
  absent) fails the loop test at once. \<open>task.repetitionDays.length\<close> throws when a
  repetitive task has no \<open>repetitionDays\<close>.
\<close>

definition addStartDate :: "int \<Rightarrow> taskRef \<Rightarrow> buckets \<Rightarrow> buckets" where
  "addStartDate tz r m =
     (case startDate (snd r) of
        Some (DateAt s) \<Rightarrow> push m (dayKey tz s) r
      | _ \<Rightarrow> m)"

definition addDateRange :: "int \<Rightarrow> taskRef \<Rightarrow> buckets \<Rightarrow> buckets" where
  "addDateRange tz r m =
     (if taskType (snd r) = Some TASK_TYPE_DATE_RANGE then
        (case endDate (snd r) of
           Some (DateAt rangeEnd) \<Rightarrow>
             (case timeValue (startDate (snd r)) of
                None \<Rightarrow> m
              | Some rangeStart \<Rightarrow> rangeLoop tz r rangeStart rangeEnd m)
         | _ \<Rightarrow> m)
      else m)"

definition addRepetition :: "int \<Rightarrow> int list \<Rightarrow> taskRef \<Rightarrow> buckets \<Rightarrow> string + buckets" where
  "addRepetition tz calendarDays r m =
     (if isRepetitive (snd r) = Some True then
        (case repetitionDays (snd r) of
           None \<Rightarrow> Inl ''TypeError: Cannot read properties of undefined''
         | Some days \<Rightarrow>
             if 0 < length days then Inr (repeatLoop tz r days calendarDays m) else Inr m)
      else Inr m)"

definition addTask :: "int \<Rightarrow> int list \<Rightarrow> taskRef \<Rightarrow> buckets \<Rightarrow> string + buckets" where
  "addTask tz calendarDays r m =
     addRepetition tz calendarDays r (addDateRange tz r (addStartDate tz r m))"

fun forEachTask :: "int \<Rightarrow> int list \<Rightarrow> taskRef list \<Rightarrow> buckets \<Rightarrow> string + buckets" where
  "forEachTask tz calendarDays [] m = Inr m"
| "forEachTask tz calendarDays (r # rest) m =
     (case addTask tz calendarDays r m of
        Inl err \<Rightarrow> Inl err
      | Inr m' \<Rightarrow> forEachTask tz calendarDays rest m')"

definition tasksByDate :: "int \<Rightarrow> int list \<Rightarrow> taskRef list \<Rightarrow> string + buckets" where
  "tasksByDate tz calendarDays tasks = forEachTask tz calendarDays tasks Map.empty"

section \<open>Status derivation\<close>

text \<open>
  C1. For every task, \<open>calculateTaskStatus\<close> returns completed when the task's status
  is already completed; otherwise, when the task has a deadline strictly before the
  start of the local day of the clock reading, it returns overdue; otherwise it returns
  active.
\<close>

theorem calculateTaskStatus_cases:
  "fst (calculateTaskStatus e n t) =
     (if status t = Some TASK_STATUS_COMPLETED then TASK_STATUS_COMPLETED
      else if (\<exists>d. deadline t = Some (DateAt d) \<and> d < startOfDay (tzOffset e) (clock e n))
        then TASK_STATUS_OVERDUE
      else TASK_STATUS_ACTIVE)"
  by (simp add: calculateTaskStatus_def Let_def split: option.split date_val.split)

text \<open>
  C1 at concrete tasks, the clock at 2023-11-14 22:13:20 UTC: a completed task with a
  deadline the day before stays completed, the same task while active is overdue, a
  task due at the start of the same day is active, and a task without a deadline is
  active whatever its status was.
\<close>

theorem calculateTaskStatus_cases_witness:
  "fst (calculateTaskStatus \<lparr>clock = \<lambda>n. 1700000000000, tzOffset = 0, random36 = ''r''\<rparr> 0
      (emptyObject\<lparr>deadline := Some (DateAt 1699900000000),
         status := Some TASK_STATUS_COMPLETED\<rparr>)) = TASK_STATUS_COMPLETED \<and>
   fst (calculateTaskStatus \<lparr>clock = \<lambda>n. 1700000000000, tzOffset = 0, random36 = ''r''\<rparr> 0
      (emptyObject\<lparr>deadline := Some (DateAt 1699900000000),
         status := Some TASK_STATUS_ACTIVE\<rparr>)) = TASK_STATUS_OVERDUE \<and>
   fst (calculateTaskStatus \<lparr>clock = \<lambda>n. 1700000000000, tzOffset = 0, random36 = ''r''\<rparr> 0
      (emptyObject\<lparr>deadline := Some (DateAt 1699920000000),
         status := Some TASK_STATUS_ACTIVE\<rparr>)) = TASK_STATUS_ACTIVE \<and>
   fst (calculateTaskStatus \<lparr>clock = \<lambda>n. 1700000000000, tzOffset = 0, random36 = ''r''\<rparr> 0
      (emptyObject\<lparr>status := Some TASK_STATUS_OVERDUE\<rparr>)) = TASK_STATUS_ACTIVE"
  using
    calculateTaskStatus_cases[of "\<lparr>clock = \<lambda>n. 1700000000000, tzOffset = 0, random36 = ''r''\<rparr>" 0
      "emptyObject\<lparr>deadline := Some (DateAt 1699900000000), status := Some TASK_STATUS_COMPLETED\<rparr>"]
    calculateTaskStatus_cases[of "\<lparr>clock = \<lambda>n. 1700000000000, tzOffset = 0, random36 = ''r''\<rparr>" 0
      "emptyObject\<lparr>deadline := Some (DateAt 1699900000000), status := Some TASK_STATUS_ACTIVE\<rparr>"]
    calculateTaskStatus_cases[of "\<lparr>clock = \<lambda>n. 1700000000000, tzOffset = 0, random36 = ''r''\<rparr>" 0
      "emptyObject\<lparr>deadline := Some (DateAt 1699920000000), status := Some TASK_STATUS_ACTIVE\<rparr>"]
    calculateTaskStatus_cases[of "\<lparr>clock = \<lambda>n. 1700000000000, tzOffset = 0, random36 = ''r''\<rparr>" 0
      "emptyObject\<lparr>status := Some TASK_STATUS_OVERDUE\<rparr>"]
  by (simp add: emptyObject_def startOfDay_def msPerDay_def)

section \<open>The reducer: lookup misses and unknown kinds\<close>

lemma mapClock_unchanged:
  "(\<And>k t. t \<in> set ts \<Longrightarrow> f k t = (t, k)) \<Longrightarrow> mapClock f n ts = (ts, n)"
  by (induction ts arbitrary: n) auto

lemma mapClock_length: "length (fst (mapClock f n ts)) = length ts"
proof (induction ts arbitrary: n)
  case Nil
  then show ?case by simp
next
  case (Cons t ts)
  obtain t' n1 where f: "f n t = (t', n1)" by (cases "f n t")
  obtain ts' n2 where m: "mapClock f n1 ts = (ts', n2)" by (cases "mapClock f n1 ts")
  from Cons.IH[of n1] show ?case by (simp add: f m)
qed

lemma mapClock_nth:
  "i < length ts \<Longrightarrow> \<exists>k. fst (mapClock f n ts) ! i = fst (f k (ts ! i))"
proof (induction ts arbitrary: n i)
  case Nil
  then show ?case by simp
next
  case (Cons t ts)
  obtain t' n1 where f: "f n t = (t', n1)" by (cases "f n t")
  obtain ts' n2 where m: "mapClock f n1 ts = (ts', n2)" by (cases "mapClock f n1 ts")
  show ?case
  proof (cases i)
    case 0
    have "fst (mapClock f n (t # ts)) ! 0 = fst (f n t)" by (simp add: f m)
    with 0 show ?thesis by auto
  next
    case (Suc j)
    with Cons.prems have "j < length ts" by simp
    from Cons.IH[OF this, of n1] obtain k where "fst (mapClock f n1 ts) ! j = fst (f k (ts ! j))" ..
    with Suc show ?thesis by (auto simp: f m)
  qed
qed

text \<open>
  C3. For every collection and every payload whose id matches no task in the collection,
  the Update, Delete, UpdateTimer and ResetTimer intents return a collection equal to
  the input collection and raise no error.
\<close>

theorem lookup_miss_is_noop:
  assumes "\<forall>t \<in> set state. taskId t \<noteq> taskId (payload a)"
    and "atype a \<in> {UPDATE_TASK, DELETE_TASK, UPDATE_TIMER, RESET_TIMER}"
  shows "taskReducer e state a = Inr state"
proof -
  have u: "mapClock (updateTask e (payload a)) 0 state = (state, 0)"
    using assms(1) by (intro mapClock_unchanged) (simp add: updateTask_def)
  have t: "mapClock (updateTimer e (payload a)) 0 state = (state, 0)"
    using assms(1) by (intro mapClock_unchanged) (simp add: updateTimer_def)
  have r: "mapClock (resetTimer e (payload a)) 0 state = (state, 0)"
    using assms(1) by (intro mapClock_unchanged) (simp add: resetTimer_def)
  have d: "filter (\<lambda>t. taskId t \<noteq> taskId (payload a)) state = state"
    using assms(1) by (simp add: filter_id_conv)
  from assms(2) consider "atype a = UPDATE_TASK" | "atype a = DELETE_TASK"
    | "atype a = UPDATE_TIMER" | "atype a = RESET_TIMER" by auto
  then show ?thesis
    by cases (simp_all add: taskReducer_def u t r d)
qed

text \<open>C3 at a collection with the task \<open>a\<close> and a \<open>RESET_TIMER\<close> for the id \<open>b\<close>.\<close>

theorem lookup_miss_is_noop_witness:
  "taskReducer \<lparr>clock = \<lambda>n. 1700000000000, tzOffset = 0, random36 = ''r''\<rparr>
     [emptyObject\<lparr>taskId := Some (IdStr ''a''), elapsedTime := Some 7\<rparr>]
     \<lparr>atype = RESET_TIMER, payload = emptyObject\<lparr>taskId := Some (IdStr ''b'')\<rparr>,
      payloadTasks = []\<rparr>
   = Inr [emptyObject\<lparr>taskId := Some (IdStr ''a''), elapsedTime := Some 7\<rparr>]"
proof -
  have h1: "\<forall>t \<in> set [emptyObject\<lparr>taskId := Some (IdStr ''a''), elapsedTime := Some 7\<rparr>].
      taskId t \<noteq> taskId (payload \<lparr>atype = RESET_TIMER,
        payload = emptyObject\<lparr>taskId := Some (IdStr ''b'')\<rparr>, payloadTasks = []\<rparr>)"
    by simp
  have h2: "atype \<lparr>atype = RESET_TIMER, payload = emptyObject\<lparr>taskId := Some (IdStr ''b'')\<rparr>,
      payloadTasks = []\<rparr> \<in> {UPDATE_TASK, DELETE_TASK, UPDATE_TIMER, RESET_TIMER}"
    by simp
  from lookup_miss_is_noop[OF h1 h2] show ?thesis .
qed

text \<open>
  C4. The reducer raises an error if and only if the kind of the dispatched action is not
  one of the nine enumerated kinds; for every enumerated kind and every collection it
  returns a result.
\<close>

theorem reducer_throws_iff_unknown_kind:
  "(\<exists>msg. taskReducer e state a = Inl msg) = (atype a \<notin> set TASK_ACTIONS)"
  by (simp add: taskReducer_def TASK_ACTIONS_def)

text \<open>C4 at an unknown kind, which throws, and at \<open>CLEAR_ALL_TASKS\<close>, which does not.\<close>

theorem reducer_throws_iff_unknown_kind_witness:
  "(\<exists>msg. taskReducer \<lparr>clock = \<lambda>n. 1700000000000, tzOffset = 0, random36 = ''r''\<rparr> []
      \<lparr>atype = ''RENAME_TASK'', payload = emptyObject, payloadTasks = []\<rparr> = Inl msg) \<and>
   \<not> (\<exists>msg. taskReducer \<lparr>clock = \<lambda>n. 1700000000000, tzOffset = 0, random36 = ''r''\<rparr> []
      \<lparr>atype = CLEAR_ALL_TASKS, payload = emptyObject, payloadTasks = []\<rparr> = Inl msg)"
  using
    reducer_throws_iff_unknown_kind[of "\<lparr>clock = \<lambda>n. 1700000000000, tzOffset = 0, random36 = ''r''\<rparr>" "[]"
      "\<lparr>atype = ''RENAME_TASK'', payload = emptyObject, payloadTasks = []\<rparr>"]
    reducer_throws_iff_unknown_kind[of "\<lparr>clock = \<lambda>n. 1700000000000, tzOffset = 0, random36 = ''r''\<rparr>" "[]"
      "\<lparr>atype = CLEAR_ALL_TASKS, payload = emptyObject, payloadTasks = []\<rparr>"]
  by (simp add: TASK_ACTIONS_def)

section \<open>The reducer: adding a task\<close>

lemma override_None [simp]: "override None b = b"
  by (cases b) (simp_all add: override_def)

lemma spread_emptyObject [simp]: "spread emptyObject p = p"
  by (simp add: spread_def emptyObject_def)

text \<open>
  C10, as amended. For every collection and every Add payload, also one that already
  holds an id, a status, an elapsed time or time stamps, the reducer returns the
  collection with one task appended, all earlier tasks unchanged and in place. The
  appended task carries the freshly generated id, status active, elapsed time 0, and
  as \<open>createdAt\<close> and \<open>updatedAt\<close> the second and third reading of the clock, which
  are equal exactly when the clock did not advance between the two readings; its other
  properties are those of the payload.
\<close>

theorem add_task_overwrites:
  assumes "atype a = ADD_TASK"
  shows "\<exists>t. taskReducer e state a = Inr (state @ [t]) \<and>
           taskId t = Some (IdStr (''task_'' @ decimal (clock e 0) @ ''_'' @ random36 e)) \<and>
           status t = Some TASK_STATUS_ACTIVE \<and>
           elapsedTime t = Some 0 \<and>
           createdAt t = Some (DateAt (clock e 1)) \<and>
           updatedAt t = Some (DateAt (clock e 2)) \<and>
           (createdAt t = updatedAt t) = (clock e 1 = clock e 2) \<and>
           title t = title (payload a) \<and> description t = description (payload a) \<and>
           isRepetitive t = isRepetitive (payload a) \<and>
           repetitionDays t = repetitionDays (payload a) \<and>
           allocatedHours t = allocatedHours (payload a) \<and>
           deadline t = deadline (payload a) \<and> taskType t = taskType (payload a) \<and>
           startDate t = startDate (payload a) \<and> endDate t = endDate (payload a)"
  using assms
  by (simp add: taskReducer_def newTask_def generateId_def numeral_2_eq_2)

text \<open>
  C10 at a payload that already holds an id, a completed status, an elapsed time and
  time stamps, added to a collection of one task.
\<close>

theorem add_task_overwrites_witness:
  "\<exists>t. taskReducer \<lparr>clock = \<lambda>n. 1700000000000 + int n, tzOffset = 0, random36 = ''k3j2h1g0f''\<rparr>
         [emptyObject\<lparr>taskId := Some (IdStr ''task_1_a'')\<rparr>]
         \<lparr>atype = ADD_TASK,
          payload = emptyObject\<lparr>taskId := Some IdNull, title := Some ''Write report'',
            elapsedTime := Some 99, status := Some TASK_STATUS_COMPLETED,
            createdAt := Some DateNull, updatedAt := Some DateNull\<rparr>,
          payloadTasks = []\<rparr>
       = Inr ([emptyObject\<lparr>taskId := Some (IdStr ''task_1_a'')\<rparr>] @ [t]) \<and>
       taskId t = Some (IdStr ''task_1700000000000_k3j2h1g0f'') \<and>
       status t = Some TASK_STATUS_ACTIVE \<and>
       elapsedTime t = Some 0 \<and>
       createdAt t = Some (DateAt 1700000000001) \<and>
       updatedAt t = Some (DateAt 1700000000002) \<and>
       title t = Some ''Write report''"
proof -
  let ?e = "\<lparr>clock = \<lambda>n. 1700000000000 + int n, tzOffset = 0, random36 = ''k3j2h1g0f''\<rparr>"
  let ?a = "\<lparr>atype = ADD_TASK,
          payload = emptyObject\<lparr>taskId := Some IdNull, title := Some ''Write report'',
            elapsedTime := Some 99, status := Some TASK_STATUS_COMPLETED,
            createdAt := Some DateNull, updatedAt := Some DateNull\<rparr>,
          payloadTasks = []\<rparr>"
  have h: "atype ?a = ADD_TASK" by simp
  from add_task_overwrites[OF h, of ?e "[emptyObject\<lparr>taskId := Some (IdStr ''task_1_a'')\<rparr>]"]
  obtain t where
    t: "taskReducer ?e [emptyObject\<lparr>taskId := Some (IdStr ''task_1_a'')\<rparr>] ?a
          = Inr ([emptyObject\<lparr>taskId := Some (IdStr ''task_1_a'')\<rparr>] @ [t])"
      "taskId t = Some (IdStr (''task_'' @ decimal (clock ?e 0) @ ''_'' @ random36 ?e))"
      "status t = Some TASK_STATUS_ACTIVE" "elapsedTime t = Some 0"
      "createdAt t = Some (DateAt (clock ?e 1))" "updatedAt t = Some (DateAt (clock ?e 2))"
      "title t = title (payload ?a)"
    by blast
  have "decimal (clock ?e 0) = ''1700000000000''" by (simp add: decimal_def)
  with t show ?thesis by (intro exI[of _ t]) simp
qed

text \<open>
  C10 as stated fails: with a clock that advances by a millisecond between readings,
  the appended task has \<open>createdAt\<close> different from \<open>updatedAt\<close>.
\<close>

theorem add_task_timestamps_counterexample:
  "taskReducer \<lparr>clock = \<lambda>n. 1700000000000 + int n, tzOffset = 0, random36 = ''k3j2h1g0f''\<rparr> []
     \<lparr>atype = ADD_TASK, payload = emptyObject\<lparr>title := Some ''Write report''\<rparr>,
      payloadTasks = []\<rparr>
   = Inr [emptyObject\<lparr>taskId := Some (IdStr ''task_1700000000000_k3j2h1g0f''),
            title := Some ''Write report'',
            elapsedTime := Some 0,
            status := Some TASK_STATUS_ACTIVE,
            createdAt := Some (DateAt 1700000000001),
            updatedAt := Some (DateAt 1700000000002)\<rparr>] \<and>
   createdAt (emptyObject\<lparr>taskId := Some (IdStr ''task_1700000000000_k3j2h1g0f''),
            title := Some ''Write report'',
            elapsedTime := Some 0,
            status := Some TASK_STATUS_ACTIVE,
            createdAt := Some (DateAt 1700000000001),
            updatedAt := Some (DateAt 1700000000002)\<rparr>)
     \<noteq> updatedAt (emptyObject\<lparr>taskId := Some (IdStr ''task_1700000000000_k3j2h1g0f''),
            title := Some ''Write report'',
            elapsedTime := Some 0,
            status := Some TASK_STATUS_ACTIVE,
            createdAt := Some (DateAt 1700000000001),
            updatedAt := Some (DateAt 1700000000002)\<rparr>)"
  by (simp add: taskReducer_def newTask_def generateId_def decimal_def spread_def
      override_def emptyObject_def)

section \<open>The reducer: the completed status\<close>

lemma override_same [simp]: "override x x = x"
  by (cases x) (simp_all add: override_def)

lemma calculateTaskStatus_completed [simp]:
  "status t = Some TASK_STATUS_COMPLETED \<Longrightarrow>
     calculateTaskStatus e n t = (TASK_STATUS_COMPLETED, n)"
  by (simp add: calculateTaskStatus_def)

lemma updateTaskStatus_completed [simp]:
  "status t = Some TASK_STATUS_COMPLETED \<Longrightarrow> updateTaskStatus e n t = (t, n)"
  by (simp add: updateTaskStatus_def)

lemma updateTask_keeps:
  assumes "status t = Some TASK_STATUS_COMPLETED"
    and "taskId p = taskId t \<Longrightarrow> status p = None \<or> status p = Some TASK_STATUS_COMPLETED"
  shows "status (fst (updateTask e p k t)) = Some TASK_STATUS_COMPLETED \<and>
         taskId (fst (updateTask e p k t)) = taskId t"
proof (cases "taskId t = taskId p")
  case False
  then show ?thesis using assms(1) by (simp add: updateTask_def)
next
  case True
  then have "status p = None \<or> status p = Some TASK_STATUS_COMPLETED" using assms(2) by simp
  then have "status ((spread t p)\<lparr>updatedAt := Some (DateAt (clock e k))\<rparr>) =
      Some TASK_STATUS_COMPLETED"
    using assms(1) by (auto simp: spread_def override_def)
  then show ?thesis using True
    by (simp add: updateTask_def Let_def) (simp add: spread_def)
qed

lemma toggleComplete_other:
  "taskId p \<noteq> taskId t \<Longrightarrow> fst (toggleComplete e p k t) = t"
  by (auto simp: toggleComplete_def)

lemma toggleComplete_same:
  "taskId p = taskId t \<Longrightarrow> status t = Some TASK_STATUS_COMPLETED \<Longrightarrow>
     status (fst (toggleComplete e p k t)) = Some TASK_STATUS_ACTIVE"
  by (simp add: toggleComplete_def)

lemma updateTimer_keeps:
  "status (fst (updateTimer e p k t)) = status t \<and> taskId (fst (updateTimer e p k t)) = taskId t"
  by (simp add: updateTimer_def)

lemma resetTimer_keeps:
  "status (fst (resetTimer e p k t)) = status t \<and> taskId (fst (resetTimer e p k t)) = taskId t"
  by (simp add: resetTimer_def)

lemma step_keeps_completed:
  assumes i: "i < length st" and c: "status (st ! i) = Some TASK_STATUS_COMPLETED"
    and kind: "atype a \<in> {ADD_TASK, UPDATE_TASK, TOGGLE_COMPLETE, UPDATE_TIMER, RESET_TIMER,
                 UPDATE_TASK_STATUS}"
    and notoggle: "\<not> (atype a = TOGGLE_COMPLETE \<and> taskId (payload a) = taskId (st ! i))"
    and noupdate: "\<not> (atype a = UPDATE_TASK \<and> taskId (payload a) = taskId (st ! i) \<and>
                 status (payload a) \<notin> {None, Some TASK_STATUS_COMPLETED})"
  shows "\<exists>st'. taskReducer e st a = Inr st' \<and> i < length st' \<and>
           status (st' ! i) = Some TASK_STATUS_COMPLETED \<and> taskId (st' ! i) = taskId (st ! i)"
proof -
  from kind consider "atype a = ADD_TASK" | "atype a = UPDATE_TASK" | "atype a = TOGGLE_COMPLETE"
    | "atype a = UPDATE_TIMER" | "atype a = RESET_TIMER" | "atype a = UPDATE_TASK_STATUS"
    by auto
  then show ?thesis
  proof cases
    case 1
    then show ?thesis using i c by (simp add: taskReducer_def nth_append)
  next
    case 2
    from mapClock_nth[OF i, of "updateTask e (payload a)" 0] obtain k where
      k: "fst (mapClock (updateTask e (payload a)) 0 st) ! i = fst (updateTask e (payload a) k (st ! i))" ..
    have "taskId (payload a) = taskId (st ! i) \<Longrightarrow>
        status (payload a) = None \<or> status (payload a) = Some TASK_STATUS_COMPLETED"
      using noupdate 2 by auto
    from updateTask_keeps[OF c this] show ?thesis
      using 2 i by (simp add: taskReducer_def mapClock_length k)
  next
    case 3
    from mapClock_nth[OF i, of "toggleComplete e (payload a)" 0] obtain k where
      k: "fst (mapClock (toggleComplete e (payload a)) 0 st) ! i =
          fst (toggleComplete e (payload a) k (st ! i))" ..
    have "taskId (payload a) \<noteq> taskId (st ! i)" using notoggle 3 by simp
    from toggleComplete_other[OF this] show ?thesis
      using 3 i c by (simp add: taskReducer_def mapClock_length k)
  next
    case 4
    from mapClock_nth[OF i, of "updateTimer e (payload a)" 0] obtain k where
      k: "fst (mapClock (updateTimer e (payload a)) 0 st) ! i =
          fst (updateTimer e (payload a) k (st ! i))" ..
    show ?thesis
      using 4 i c by (simp add: taskReducer_def mapClock_length k updateTimer_keeps)
  next
    case 5
    from mapClock_nth[OF i, of "resetTimer e (payload a)" 0] obtain k where
      k: "fst (mapClock (resetTimer e (payload a)) 0 st) ! i =
          fst (resetTimer e (payload a) k (st ! i))" ..
    show ?thesis
      using 5 i c by (simp add: taskReducer_def mapClock_length k resetTimer_keeps)
  next
    case 6
    from mapClock_nth[OF i, of "updateTaskStatus e" 0] obtain k where
      k: "fst (mapClock (updateTaskStatus e) 0 st) ! i = fst (updateTaskStatus e k (st ! i))" ..
    show ?thesis
      using 6 i c by (simp add: taskReducer_def mapClock_length k)
  qed
qed

lemma recompute_keeps_task:
  assumes i: "i < length st" and c: "status (st ! i) = Some TASK_STATUS_COMPLETED"
    and kind: "atype a = UPDATE_TASK_STATUS"
  shows "\<exists>st'. taskReducer e st a = Inr st' \<and> length st' = length st \<and> st' ! i = st ! i"
proof -
  from mapClock_nth[OF i, of "updateTaskStatus e" 0] obtain k where
    k: "fst (mapClock (updateTaskStatus e) 0 st) ! i = fst (updateTaskStatus e k (st ! i))" ..
  show ?thesis using kind c by (simp add: taskReducer_def mapClock_length k)
qed

lemma recompute_all_keeps_task:
  assumes "i < length st" and "status (st ! i) = Some TASK_STATUS_COMPLETED"
    and "\<forall>(e, a) \<in> set ds. atype a = UPDATE_TASK_STATUS"
  shows "\<exists>st'. dispatchAll st ds = Inr st' \<and> length st' = length st \<and> st' ! i = st ! i"
  using assms
proof (induction ds arbitrary: st)
  case Nil
  then show ?case by simp
next
  case (Cons d ds)
  obtain e a where d: "d = (e, a)" by (cases d)
  with Cons.prems have "atype a = UPDATE_TASK_STATUS" by simp
  from recompute_keeps_task[OF Cons.prems(1,2) this, of e] obtain st1 where
    s1: "taskReducer e st a = Inr st1" "length st1 = length st" "st1 ! i = st ! i" by auto
  have "\<exists>st'. dispatchAll st1 ds = Inr st' \<and> length st' = length st1 \<and> st' ! i = st1 ! i"
    using Cons.prems s1 by (intro Cons.IH) auto
  then show ?case using s1 d by auto
qed

lemma dispatchAll_keeps_completed:
  assumes "i < length st" and "status (st ! i) = Some TASK_STATUS_COMPLETED"
    and "taskId (st ! i) = key"
    and "\<forall>(e, a) \<in> set ds.
           atype a \<in> {ADD_TASK, UPDATE_TASK, TOGGLE_COMPLETE, UPDATE_TIMER, RESET_TIMER,
             UPDATE_TASK_STATUS} \<and>
           \<not> (atype a = TOGGLE_COMPLETE \<and> taskId (payload a) = key) \<and>
           \<not> (atype a = UPDATE_TASK \<and> taskId (payload a) = key \<and>
                status (payload a) \<notin> {None, Some TASK_STATUS_COMPLETED})"
  shows "\<exists>st'. dispatchAll st ds = Inr st' \<and> i < length st' \<and>
           status (st' ! i) = Some TASK_STATUS_COMPLETED \<and> taskId (st' ! i) = key"
  using assms
proof (induction ds arbitrary: st)
  case Nil
  then show ?case by simp
next
  case (Cons d ds)
  obtain e a where d: "d = (e, a)" by (cases d)
  have k: "atype a \<in> {ADD_TASK, UPDATE_TASK, TOGGLE_COMPLETE, UPDATE_TIMER, RESET_TIMER,
             UPDATE_TASK_STATUS}"
    and t: "\<not> (atype a = TOGGLE_COMPLETE \<and> taskId (payload a) = taskId (st ! i))"
    and u: "\<not> (atype a = UPDATE_TASK \<and> taskId (payload a) = taskId (st ! i) \<and>
                status (payload a) \<notin> {None, Some TASK_STATUS_COMPLETED})"
    using Cons.prems(3,4) d by auto
  from step_keeps_completed[OF Cons.prems(1,2) k t u, of e] obtain st1 where
    s1: "taskReducer e st a = Inr st1" "i < length st1"
      "status (st1 ! i) = Some TASK_STATUS_COMPLETED" "taskId (st1 ! i) = taskId (st ! i)"
    by auto
  have "\<exists>st'. dispatchAll st1 ds = Inr st' \<and> i < length st' \<and>
           status (st' ! i) = Some TASK_STATUS_COMPLETED \<and> taskId (st' ! i) = key"
    using Cons.prems s1 by (intro Cons.IH) auto
  then show ?case using s1 d by auto
qed

lemma toggle_makes_active:
  assumes i: "i < length st" and c: "status (st ! i) = Some TASK_STATUS_COMPLETED"
    and "atype a = TOGGLE_COMPLETE" and "taskId (payload a) = taskId (st ! i)"
  shows "\<exists>st'. taskReducer e st a = Inr st' \<and> i < length st' \<and>
           status (st' ! i) = Some TASK_STATUS_ACTIVE"
proof -
  from mapClock_nth[OF i, of "toggleComplete e (payload a)" 0] obtain k where
    k: "fst (mapClock (toggleComplete e (payload a)) 0 st) ! i =
        fst (toggleComplete e (payload a) k (st ! i))" ..
  show ?thesis
    using assms by (simp add: taskReducer_def mapClock_length k toggleComplete_same)
qed

lemma mapClock_member:
  assumes "t \<in> set ts"
  shows "\<exists>k. fst (f k t) \<in> set (fst (mapClock f n ts))"
proof -
  from assms obtain i where i: "i < length ts" "ts ! i = t" by (auto simp: in_set_conv_nth)
  from mapClock_nth[OF i(1), of f n] obtain k where
    "fst (mapClock f n ts) ! i = fst (f k (ts ! i))" ..
  moreover have "i < length (fst (mapClock f n ts))" using i(1) by (simp add: mapClock_length)
  ultimately show ?thesis using i(2) by (metis nth_mem)
qed

lemma step_keeps_completed_member:
  assumes t: "t \<in> set st" "taskId t = key" "status t = Some TASK_STATUS_COMPLETED"
    and kind: "atype a \<in> {ADD_TASK, UPDATE_TASK, DELETE_TASK, TOGGLE_COMPLETE, UPDATE_TIMER,
                 RESET_TIMER, UPDATE_TASK_STATUS}"
    and nodelete: "\<not> (atype a = DELETE_TASK \<and> taskId (payload a) = key)"
    and notoggle: "\<not> (atype a = TOGGLE_COMPLETE \<and> taskId (payload a) = key)"
    and noupdate: "\<not> (atype a = UPDATE_TASK \<and> taskId (payload a) = key \<and>
                 status (payload a) \<notin> {None, Some TASK_STATUS_COMPLETED})"
  shows "\<exists>st' t'. taskReducer e st a = Inr st' \<and> t' \<in> set st' \<and> taskId t' = key \<and>
           status t' = Some TASK_STATUS_COMPLETED"
proof -
  from kind consider "atype a = ADD_TASK" | "atype a = UPDATE_TASK" | "atype a = DELETE_TASK"
    | "atype a = TOGGLE_COMPLETE" | "atype a = UPDATE_TIMER" | "atype a = RESET_TIMER"
    | "atype a = UPDATE_TASK_STATUS"
    by auto
  then show ?thesis
  proof cases
    case 1
    then show ?thesis using t by (auto simp: taskReducer_def)
  next
    case 2
    from mapClock_member[OF t(1), of "updateTask e (payload a)" 0] obtain k where
      k: "fst (updateTask e (payload a) k t) \<in> set (fst (mapClock (updateTask e (payload a)) 0 st))" ..
    have "taskId (payload a) = taskId t \<Longrightarrow>
        status (payload a) = None \<or> status (payload a) = Some TASK_STATUS_COMPLETED"
      using noupdate 2 t(2) by auto
    from updateTask_keeps[OF t(3) this, of e k] show ?thesis
      using 2 k t(2) by (auto simp: taskReducer_def)
  next
    case 3
    then have "taskId t \<noteq> taskId (payload a)" using nodelete t(2) by auto
    then show ?thesis using 3 t by (auto simp: taskReducer_def)
  next
    case 4
    from mapClock_member[OF t(1), of "toggleComplete e (payload a)" 0] obtain k where
      k: "fst (toggleComplete e (payload a) k t)
            \<in> set (fst (mapClock (toggleComplete e (payload a)) 0 st))" ..
    have "taskId (payload a) \<noteq> taskId t" using notoggle 4 t(2) by simp
    from toggleComplete_other[OF this, of e k] show ?thesis
      using 4 k t by (auto simp: taskReducer_def)
  next
    case 5
    from mapClock_member[OF t(1), of "updateTimer e (payload a)" 0] obtain k where
      k: "fst (updateTimer e (payload a) k t)
            \<in> set (fst (mapClock (updateTimer e (payload a)) 0 st))" ..
    show ?thesis
      using 5 k t updateTimer_keeps[of e "payload a" k t] by (auto simp: taskReducer_def)
  next
    case 6
    from mapClock_member[OF t(1), of "resetTimer e (payload a)" 0] obtain k where
      k: "fst (resetTimer e (payload a) k t)
            \<in> set (fst (mapClock (resetTimer e (payload a)) 0 st))" ..
    show ?thesis
      using 6 k t resetTimer_keeps[of e "payload a" k t] by (auto simp: taskReducer_def)
  next
    case 7
    from mapClock_member[OF t(1), of "updateTaskStatus e" 0] obtain k where
      k: "fst (updateTaskStatus e k t) \<in> set (fst (mapClock (updateTaskStatus e) 0 st))" ..
    show ?thesis
      using 7 k t by (auto simp: taskReducer_def)
  qed
qed

lemma dispatchAll_keeps_completed_member:
  assumes "t \<in> set st" and "taskId t = key" and "status t = Some TASK_STATUS_COMPLETED"
    and "\<forall>(e, a) \<in> set ds.
           atype a \<in> {ADD_TASK, UPDATE_TASK, DELETE_TASK, TOGGLE_COMPLETE, UPDATE_TIMER,
             RESET_TIMER, UPDATE_TASK_STATUS} \<and>
           \<not> (atype a = DELETE_TASK \<and> taskId (payload a) = key) \<and>
           \<not> (atype a = TOGGLE_COMPLETE \<and> taskId (payload a) = key) \<and>
           \<not> (atype a = UPDATE_TASK \<and> taskId (payload a) = key \<and>
                status (payload a) \<notin> {None, Some TASK_STATUS_COMPLETED})"
  shows "\<exists>st' t'. dispatchAll st ds = Inr st' \<and> t' \<in> set st' \<and> taskId t' = key \<and>
           status t' = Some TASK_STATUS_COMPLETED"
  using assms
proof (induction ds arbitrary: st t)
  case Nil
  then show ?case by auto
next
  case (Cons d ds)
  obtain e a where d: "d = (e, a)" by (cases d)
  have k: "atype a \<in> {ADD_TASK, UPDATE_TASK, DELETE_TASK, TOGGLE_COMPLETE, UPDATE_TIMER,
             RESET_TIMER, UPDATE_TASK_STATUS}"
    and dl: "\<not> (atype a = DELETE_TASK \<and> taskId (payload a) = key)"
    and tg: "\<not> (atype a = TOGGLE_COMPLETE \<and> taskId (payload a) = key)"
    and up: "\<not> (atype a = UPDATE_TASK \<and> taskId (payload a) = key \<and>
                status (payload a) \<notin> {None, Some TASK_STATUS_COMPLETED})"
    using Cons.prems(4) d by auto
  from step_keeps_completed_member[OF Cons.prems(1,2,3) k dl tg up, of e] obtain st1 t1 where
    s1: "taskReducer e st a = Inr st1" "t1 \<in> set st1" "taskId t1 = key"
      "status t1 = Some TASK_STATUS_COMPLETED"
    by auto
  have "\<exists>st' t'. dispatchAll st1 ds = Inr st' \<and> t' \<in> set st' \<and> taskId t' = key \<and>
           status t' = Some TASK_STATUS_COMPLETED"
    using Cons.prems(4) s1 by (intro Cons.IH[of t1 st1]) auto
  then show ?case using s1 d by auto
qed

text \<open>
  C2, as amended. For every collection and every task in it whose status is completed:
  dispatching \<open>UPDATE_TASK_STATUS\<close> any number of times leaves the task as it is; the
  status of the task stays completed under every sequence of Add, Update,
  ToggleComplete, UpdateTimer, ResetTimer and RecomputeStatuses actions that holds
  neither a ToggleComplete for the id of the task nor an Update for that id whose payload
  carries a status other than completed; when the sequence also holds Delete actions
  for other ids, a completed task of that id stays in the collection; and a
  ToggleComplete for the id of the task makes the status active, whatever the deadline.
\<close>

theorem completed_is_sticky:
  assumes "i < length st" and "status (st ! i) = Some TASK_STATUS_COMPLETED"
  shows "(\<forall>ds. (\<forall>(e, a) \<in> set ds. atype a = UPDATE_TASK_STATUS) \<longrightarrow>
            (\<exists>st'. dispatchAll st ds = Inr st' \<and> length st' = length st \<and> st' ! i = st ! i)) \<and>
         (\<forall>ds. (\<forall>(e, a) \<in> set ds.
                  atype a \<in> {ADD_TASK, UPDATE_TASK, TOGGLE_COMPLETE, UPDATE_TIMER, RESET_TIMER,
                    UPDATE_TASK_STATUS} \<and>
                  \<not> (atype a = TOGGLE_COMPLETE \<and> taskId (payload a) = taskId (st ! i)) \<and>
                  \<not> (atype a = UPDATE_TASK \<and> taskId (payload a) = taskId (st ! i) \<and>
                       status (payload a) \<notin> {None, Some TASK_STATUS_COMPLETED})) \<longrightarrow>
            (\<exists>st'. dispatchAll st ds = Inr st' \<and> i < length st' \<and>
               status (st' ! i) = Some TASK_STATUS_COMPLETED \<and>
               taskId (st' ! i) = taskId (st ! i))) \<and>
         (\<forall>ds. (\<forall>(e, a) \<in> set ds.
                  atype a \<in> {ADD_TASK, UPDATE_TASK, DELETE_TASK, TOGGLE_COMPLETE, UPDATE_TIMER,
                    RESET_TIMER, UPDATE_TASK_STATUS} \<and>
                  \<not> (atype a = DELETE_TASK \<and> taskId (payload a) = taskId (st ! i)) \<and>
                  \<not> (atype a = TOGGLE_COMPLETE \<and> taskId (payload a) = taskId (st ! i)) \<and>
                  \<not> (atype a = UPDATE_TASK \<and> taskId (payload a) = taskId (st ! i) \<and>
                       status (payload a) \<notin> {None, Some TASK_STATUS_COMPLETED})) \<longrightarrow>
            (\<exists>st' t'. dispatchAll st ds = Inr st' \<and> t' \<in> set st' \<and>
               taskId t' = taskId (st ! i) \<and> status t' = Some TASK_STATUS_COMPLETED)) \<and>
         (\<forall>e a. atype a = TOGGLE_COMPLETE \<and> taskId (payload a) = taskId (st ! i) \<longrightarrow>
            (\<exists>st'. taskReducer e st a = Inr st' \<and> i < length st' \<and>
               status (st' ! i) = Some TASK_STATUS_ACTIVE))"
proof (intro conjI allI impI)
  fix ds :: "(env \<times> action) list"
  assume "\<forall>(e, a) \<in> set ds. atype a = UPDATE_TASK_STATUS"
  from recompute_all_keeps_task[OF assms this]
  show "\<exists>st'. dispatchAll st ds = Inr st' \<and> length st' = length st \<and> st' ! i = st ! i" .
next
  fix ds :: "(env \<times> action) list"
  assume "\<forall>(e, a) \<in> set ds.
            atype a \<in> {ADD_TASK, UPDATE_TASK, TOGGLE_COMPLETE, UPDATE_TIMER, RESET_TIMER,
              UPDATE_TASK_STATUS} \<and>
            \<not> (atype a = TOGGLE_COMPLETE \<and> taskId (payload a) = taskId (st ! i)) \<and>
            \<not> (atype a = UPDATE_TASK \<and> taskId (payload a) = taskId (st ! i) \<and>
                 status (payload a) \<notin> {None, Some TASK_STATUS_COMPLETED})"
  from dispatchAll_keeps_completed[OF assms refl this]
  show "\<exists>st'. dispatchAll st ds = Inr st' \<and> i < length st' \<and>
          status (st' ! i) = Some TASK_STATUS_COMPLETED \<and> taskId (st' ! i) = taskId (st ! i)" .
next
  fix ds :: "(env \<times> action) list"
  assume a: "\<forall>(e, a) \<in> set ds.
            atype a \<in> {ADD_TASK, UPDATE_TASK, DELETE_TASK, TOGGLE_COMPLETE, UPDATE_TIMER,
              RESET_TIMER, UPDATE_TASK_STATUS} \<and>
            \<not> (atype a = DELETE_TASK \<and> taskId (payload a) = taskId (st ! i)) \<and>
            \<not> (atype a = TOGGLE_COMPLETE \<and> taskId (payload a) = taskId (st ! i)) \<and>
            \<not> (atype a = UPDATE_TASK \<and> taskId (payload a) = taskId (st ! i) \<and>
                 status (payload a) \<notin> {None, Some TASK_STATUS_COMPLETED})"
  have "st ! i \<in> set st" using assms(1) by simp
  from dispatchAll_keeps_completed_member[OF this refl assms(2) a]
  show "\<exists>st' t'. dispatchAll st ds = Inr st' \<and> t' \<in> set st' \<and>
          taskId t' = taskId (st ! i) \<and> status t' = Some TASK_STATUS_COMPLETED" .
next
  fix e :: env and a :: action
  assume "atype a = TOGGLE_COMPLETE \<and> taskId (payload a) = taskId (st ! i)"
  then show "\<exists>st'. taskReducer e st a = Inr st' \<and> i < length st' \<and>
      status (st' ! i) = Some TASK_STATUS_ACTIVE"
    using toggle_makes_active[OF assms] by simp
qed

text \<open>
  C2 at a completed task whose deadline is long past: two recomputations leave it
  untouched, and a ToggleComplete makes it active.
\<close>

theorem completed_is_sticky_witness:
  "(\<exists>st'. dispatchAll
       [emptyObject\<lparr>taskId := Some (IdStr ''a''), deadline := Some (DateAt 0),
          status := Some TASK_STATUS_COMPLETED\<rparr>]
       [(\<lparr>clock = \<lambda>n. 1700000000000, tzOffset = 0, random36 = ''r''\<rparr>,
         \<lparr>atype = UPDATE_TASK_STATUS, payload = emptyObject, payloadTasks = []\<rparr>),
        (\<lparr>clock = \<lambda>n. 1700000060000, tzOffset = 0, random36 = ''r''\<rparr>,
         \<lparr>atype = UPDATE_TASK_STATUS, payload = emptyObject, payloadTasks = []\<rparr>)] = Inr st' \<and>
       length st' = 1 \<and>
       st' ! 0 = emptyObject\<lparr>taskId := Some (IdStr ''a''), deadline := Some (DateAt 0),
          status := Some TASK_STATUS_COMPLETED\<rparr>) \<and>
   (\<exists>st'. taskReducer \<lparr>clock = \<lambda>n. 1700000000000, tzOffset = 0, random36 = ''r''\<rparr>
       [emptyObject\<lparr>taskId := Some (IdStr ''a''), deadline := Some (DateAt 0),
          status := Some TASK_STATUS_COMPLETED\<rparr>]
       \<lparr>atype = TOGGLE_COMPLETE, payload = emptyObject\<lparr>taskId := Some (IdStr ''a'')\<rparr>,
         payloadTasks = []\<rparr> = Inr st' \<and>
       0 < length st' \<and> status (st' ! 0) = Some TASK_STATUS_ACTIVE)"
proof -
  let ?t = "emptyObject\<lparr>taskId := Some (IdStr ''a''), deadline := Some (DateAt 0),
          status := Some TASK_STATUS_COMPLETED\<rparr>"
  let ?ds = "[(\<lparr>clock = \<lambda>n. 1700000000000, tzOffset = 0, random36 = ''r''\<rparr>,
         \<lparr>atype = UPDATE_TASK_STATUS, payload = emptyObject, payloadTasks = []\<rparr>),
        (\<lparr>clock = \<lambda>n. 1700000060000, tzOffset = 0, random36 = ''r''\<rparr>,
         \<lparr>atype = UPDATE_TASK_STATUS, payload = emptyObject, payloadTasks = []\<rparr>)]"
  let ?a = "\<lparr>atype = TOGGLE_COMPLETE, payload = emptyObject\<lparr>taskId := Some (IdStr ''a'')\<rparr>,
         payloadTasks = []\<rparr>"
  let ?e = "\<lparr>clock = \<lambda>n. 1700000000000, tzOffset = 0, random36 = ''r''\<rparr>"
  have h1: "0 < length [?t]" by simp
  have h2: "status ([?t] ! 0) = Some TASK_STATUS_COMPLETED" by simp
  note th = completed_is_sticky[OF h1 h2]
  have h3: "\<forall>(e, a) \<in> set ?ds. atype a = UPDATE_TASK_STATUS" by simp
  have h4: "atype ?a = TOGGLE_COMPLETE \<and> taskId (payload ?a) = taskId ([?t] ! 0)" by simp
  from th have "\<exists>st'. dispatchAll [?t] ?ds = Inr st' \<and> length st' = length [?t] \<and> st' ! 0 = [?t] ! 0"
    using h3 by blast
  moreover from th have "\<exists>st'. taskReducer ?e [?t] ?a = Inr st' \<and> 0 < length st' \<and>
               status (st' ! 0) = Some TASK_STATUS_ACTIVE"
    using h4 by blast
  ultimately show ?thesis by simp
qed

text \<open>
  C2 as stated fails: an \<open>UPDATE_TASK\<close> whose payload carries the status active takes
  a completed task out of completed, and it is no ToggleComplete.
\<close>

theorem update_leaves_completed_counterexample:
  "status ([emptyObject\<lparr>taskId := Some (IdStr ''a''), status := Some TASK_STATUS_COMPLETED\<rparr>] ! 0)
     = Some TASK_STATUS_COMPLETED \<and>
   atype \<lparr>atype = UPDATE_TASK,
      payload = emptyObject\<lparr>taskId := Some (IdStr ''a''), status := Some TASK_STATUS_ACTIVE\<rparr>,
      payloadTasks = []\<rparr> \<noteq> TOGGLE_COMPLETE \<and>
   taskReducer \<lparr>clock = \<lambda>n. 1700000000000, tzOffset = 0, random36 = ''r''\<rparr>
     [emptyObject\<lparr>taskId := Some (IdStr ''a''), status := Some TASK_STATUS_COMPLETED\<rparr>]
     \<lparr>atype = UPDATE_TASK,
      payload = emptyObject\<lparr>taskId := Some (IdStr ''a''), status := Some TASK_STATUS_ACTIVE\<rparr>,
      payloadTasks = []\<rparr>
   = Inr [emptyObject\<lparr>taskId := Some (IdStr ''a''), status := Some TASK_STATUS_ACTIVE,
            updatedAt := Some (DateAt 1700000000000)\<rparr>]"
  by (simp add: taskReducer_def updateTask_def spread_def override_def emptyObject_def
      calculateTaskStatus_def)

section \<open>The list sorted by deadline\<close>

lemma compareTasks_deadline:
  "compareTasks lc ''deadline'' a b =
     Inr (case deadline a of
            Some (DateAt ta) \<Rightarrow>
              (case deadline b of Some (DateAt tb) \<Rightarrow> Some (ta - tb) | _ \<Rightarrow> Some (- 1))
          | _ \<Rightarrow> Some 1)"
  by (simp add: compareTasks_def truthyDate_def minusDate_def timeValue_def
      split: option.split date_val.split)

lemma deadlineOrder_dated:
  "deadline b = Some (DateAt tb) \<Longrightarrow>
     deadlineOrder a b = (\<exists>ta. deadline a = Some (DateAt ta) \<and> ta \<le> tb)"
  by (auto simp: deadlineOrder_def split: option.splits date_val.splits)

lemma deadlineOrder_undated:
  "\<forall>tb. deadline b \<noteq> Some (DateAt tb) \<Longrightarrow> deadlineOrder a b"
  by (auto simp: deadlineOrder_def split: option.splits date_val.splits)

lemma insertSorted_deadline:
  assumes "sorted_wrt deadlineOrder acc"
  shows "\<exists>zs. insertSorted (compareTasks lc ''deadline'') x acc = Inr zs \<and>
           sorted_wrt deadlineOrder zs \<and> mset zs = add_mset x (mset acc)"
  using assms
proof (induction acc)
  case Nil
  then show ?case by simp
next
  case (Cons y ys)
  then obtain zs where zs: "insertSorted (compareTasks lc ''deadline'') x ys = Inr zs"
    "sorted_wrt deadlineOrder zs" "mset zs = add_mset x (mset ys)"
    by auto
  from zs(3) have set_zs: "set zs = insert x (set ys)"
    by (metis set_mset_add_mset_insert set_mset_mset)
  from Cons.prems have y: "\<forall>z \<in> set ys. deadlineOrder y z" and ys: "sorted_wrt deadlineOrder ys"
    by simp_all
  show ?case
  proof (cases "deadline x")
    case None
    then have "deadlineOrder y x" by (simp add: deadlineOrder_def)
    moreover have "compareTasks lc ''deadline'' x y = Inr (Some 1)"
      using None by (simp add: compareTasks_deadline)
    ultimately show ?thesis using zs set_zs y
      by (simp add: negative_def)
  next
    case (Some dx)
    show ?thesis
    proof (cases dx)
      case DateNull
      then have "deadlineOrder y x" using Some by (simp add: deadlineOrder_def)
      moreover have "compareTasks lc ''deadline'' x y = Inr (Some 1)"
        using Some DateNull by (simp add: compareTasks_deadline)
      ultimately show ?thesis using zs set_zs y
        by (simp add: negative_def)
    next
      case (DateAt tx)
      note x = Some[unfolded DateAt]
      show ?thesis
      proof (cases "\<exists>ty. deadline y = Some (DateAt ty)")
        case False
        then have c: "compareTasks lc ''deadline'' x y = Inr (Some (- 1))"
          using x by (auto simp: compareTasks_deadline split: option.split date_val.split)
        have ny: "\<forall>tz. deadline z \<noteq> Some (DateAt tz)" if "z \<in> set ys" for z
        proof (intro allI notI)
          fix tz assume "deadline z = Some (DateAt tz)"
          moreover have "deadlineOrder y z" using y that by simp
          ultimately show False using False by (simp add: deadlineOrder_dated)
        qed
        have "deadlineOrder x y" using False by (simp add: deadlineOrder_undated)
        moreover have "\<forall>z \<in> set ys. deadlineOrder x z" using ny
          by (simp add: deadlineOrder_undated)
        ultimately show ?thesis using c Cons.prems by (simp add: negative_def)
      next
        case True
        then obtain ty where ty: "deadline y = Some (DateAt ty)" ..
        have c: "compareTasks lc ''deadline'' x y = Inr (Some (tx - ty))"
          using x ty by (simp add: compareTasks_deadline)
        show ?thesis
        proof (cases "tx < ty")
          case True
          have "deadlineOrder x y" using x ty True by (simp add: deadlineOrder_def)
          moreover have "deadlineOrder x z" if "z \<in> set ys" for z
          proof (cases "\<exists>tz. deadline z = Some (DateAt tz)")
            case False
            then show ?thesis by (simp add: deadlineOrder_undated)
          next
            case True
            then obtain tz where tz: "deadline z = Some (DateAt tz)" ..
            have "deadlineOrder y z" using y that by simp
            then have "ty \<le> tz" using ty tz by (simp add: deadlineOrder_dated)
            then show ?thesis using x tz \<open>tx < ty\<close> by (simp add: deadlineOrder_dated)
          qed
          ultimately show ?thesis using c True Cons.prems by (simp add: negative_def)
        next
          case False
          have "deadlineOrder y x" using x ty False by (simp add: deadlineOrder_def)
          with c False zs set_zs y show ?thesis by (simp add: negative_def)
        qed
      qed
    qed
  qed
qed

lemma sortInto_deadline:
  assumes "sorted_wrt deadlineOrder acc"
  shows "\<exists>zs. sortInto (compareTasks lc ''deadline'') acc xs = Inr zs \<and>
           sorted_wrt deadlineOrder zs \<and> mset zs = mset acc + mset xs"
  using assms
proof (induction xs arbitrary: acc)
  case Nil
  then show ?case by simp
next
  case (Cons x xs)
  from insertSorted_deadline[OF Cons.prems, of lc x] obtain acc' where
    a: "insertSorted (compareTasks lc ''deadline'') x acc = Inr acc'"
      "sorted_wrt deadlineOrder acc'" "mset acc' = add_mset x (mset acc)"
    by auto
  from Cons.IH[OF a(2)] obtain zs where
    "sortInto (compareTasks lc ''deadline'') acc' xs = Inr zs"
    "sorted_wrt deadlineOrder zs" "mset zs = mset acc' + mset xs"
    by auto
  with a show ?case by simp
qed

lemma arraySort_deadline:
  "\<exists>zs. arraySort (compareTasks lc ''deadline'') xs = Inr zs \<and>
         sorted_wrt deadlineOrder zs \<and> mset zs = mset xs"
  using sortInto_deadline[of "[]" lc xs] by (simp add: arraySort_def)

lemma truthyDate_iff: "truthyDate d = (\<exists>t. d = Some (DateAt t))"
  by (auto simp: truthyDate_def split: option.splits date_val.splits)

lemma deadlineOrder_indices:
  assumes "sorted_wrt deadlineOrder zs"
  shows "(\<forall>i j. i < length zs \<and> j < length zs \<and> truthyDate (deadline (zs ! i)) \<and>
            \<not> truthyDate (deadline (zs ! j)) \<longrightarrow> i < j) \<and>
         (\<forall>i j ti tj. i < j \<and> j < length zs \<and> deadline (zs ! i) = Some (DateAt ti) \<and>
            deadline (zs ! j) = Some (DateAt tj) \<longrightarrow> ti \<le> tj)"
proof (intro conjI allI impI)
  fix i j
  assume a: "i < length zs \<and> j < length zs \<and> truthyDate (deadline (zs ! i)) \<and>
      \<not> truthyDate (deadline (zs ! j))"
  show "i < j"
  proof (rule ccontr)
    assume "\<not> i < j"
    moreover have "i \<noteq> j" using a by auto
    ultimately have "j < i" by simp
    with assms a have "deadlineOrder (zs ! j) (zs ! i)" by (simp add: sorted_wrt_iff_nth_less)
    moreover from a obtain ti where "deadline (zs ! i) = Some (DateAt ti)"
      by (auto simp: truthyDate_iff)
    ultimately have "truthyDate (deadline (zs ! j))"
      by (auto simp: deadlineOrder_dated truthyDate_iff)
    with a show False by simp
  qed
next
  fix i j ti tj
  assume a: "i < j \<and> j < length zs \<and> deadline (zs ! i) = Some (DateAt ti) \<and>
      deadline (zs ! j) = Some (DateAt tj)"
  with assms have "deadlineOrder (zs ! i) (zs ! j)" by (simp add: sorted_wrt_iff_nth_less)
  with a show "ti \<le> tj" by (simp add: deadlineOrder_dated)
qed

text \<open>
  C5. For every collection, the filter and sort projection with the sort key deadline
  produces a list in which every task without a deadline comes after every task with a
  deadline, and the tasks with deadlines are in non-decreasing order of deadline; the
  list is a permutation of the filtered collection, it is a new array, and the array of
  the input collection (like every array that existed before) is left as it was.
\<close>

theorem deadline_sort_puts_undated_last:
  assumes "tasks < length h"
  shows "\<exists>h' r. filteredAndSortedTasks localeCompare h tasks filterStatus ''deadline'' = Inr (h', r) \<and>
      tasks < r \<and> r < length h' \<and> take (length h) h' = h \<and> h' ! tasks = h ! tasks \<and>
      mset (h' ! r) =
        mset (if filterStatus \<noteq> ''all''
              then filter (\<lambda>t. status t = Some filterStatus) (h ! tasks) else h ! tasks) \<and>
      (\<forall>i j. i < length (h' ! r) \<and> j < length (h' ! r) \<and>
         truthyDate (deadline (h' ! r ! i)) \<and> \<not> truthyDate (deadline (h' ! r ! j)) \<longrightarrow> i < j) \<and>
      (\<forall>i j ti tj. i < j \<and> j < length (h' ! r) \<and>
         deadline (h' ! r ! i) = Some (DateAt ti) \<and> deadline (h' ! r ! j) = Some (DateAt tj) \<longrightarrow>
         ti \<le> tj)"
proof -
  define xs where
    "xs = (if filterStatus \<noteq> ''all''
           then filter (\<lambda>t. status t = Some filterStatus) (h ! tasks) else h ! tasks)"
  define h1 where "h1 = (if filterStatus \<noteq> ''all'' then h @ [xs] else h)"
  from arraySort_deadline[of localeCompare xs] obtain zs where
    zs: "arraySort (compareTasks localeCompare ''deadline'') xs = Inr zs"
      "sorted_wrt deadlineOrder zs" "mset zs = mset xs"
    by auto
  have run: "filteredAndSortedTasks localeCompare h tasks filterStatus ''deadline''
      = Inr (h1 @ [zs], length h1)"
  proof (cases "filterStatus = ''all''")
    case True
    then have "xs = h ! tasks" and "h1 = h" by (simp_all add: xs_def h1_def)
    with True assms zs(1) show ?thesis
      by (simp add: filteredAndSortedTasks_def alloc_def nth_append list_update_append)
  next
    case False
    then have "xs = filter (\<lambda>t. status t = Some filterStatus) (h ! tasks)" and "h1 = h @ [xs]"
      by (simp_all add: xs_def h1_def)
    with False zs(1) show ?thesis
      by (simp add: filteredAndSortedTasks_def alloc_def nth_append list_update_append)
  qed
  have len: "length h \<le> length h1" by (simp add: h1_def)
  have "tasks < length h1" using assms len by simp
  moreover have "take (length h) (h1 @ [zs]) = h" by (simp add: h1_def)
  moreover have "(h1 @ [zs]) ! tasks = h ! tasks"
    using assms by (simp add: h1_def nth_append)
  moreover have "(h1 @ [zs]) ! length h1 = zs" by simp
  ultimately show ?thesis
    using run zs(3) deadlineOrder_indices[OF zs(2)] unfolding xs_def[symmetric]
    by (intro exI[of _ "h1 @ [zs]"] exI[of _ "length h1"]) simp
qed

text \<open>
  C5 at a collection of four tasks, two of them without a deadline: the sorted copy
  starts with the tasks due at 1 and at 3, and the collection itself is unchanged.
\<close>

theorem deadline_sort_puts_undated_last_witness:
  "filteredAndSortedTasks (\<lambda>a b. 0)
     [[emptyObject\<lparr>title := Some ''A''\<rparr>,
       emptyObject\<lparr>title := Some ''B'', deadline := Some (DateAt 3)\<rparr>,
       emptyObject\<lparr>title := Some ''C'', deadline := Some DateNull\<rparr>,
       emptyObject\<lparr>title := Some ''D'', deadline := Some (DateAt 1)\<rparr>]]
     0 ''all'' ''deadline''
   = Inr ([[emptyObject\<lparr>title := Some ''A''\<rparr>,
            emptyObject\<lparr>title := Some ''B'', deadline := Some (DateAt 3)\<rparr>,
            emptyObject\<lparr>title := Some ''C'', deadline := Some DateNull\<rparr>,
            emptyObject\<lparr>title := Some ''D'', deadline := Some (DateAt 1)\<rparr>],
           [emptyObject\<lparr>title := Some ''D'', deadline := Some (DateAt 1)\<rparr>,
            emptyObject\<lparr>title := Some ''B'', deadline := Some (DateAt 3)\<rparr>,
            emptyObject\<lparr>title := Some ''A''\<rparr>,
            emptyObject\<lparr>title := Some ''C'', deadline := Some DateNull\<rparr>]], 1) \<and>
   (\<exists>h' r. filteredAndSortedTasks (\<lambda>a b. 0)
     [[emptyObject\<lparr>title := Some ''A''\<rparr>,
       emptyObject\<lparr>title := Some ''B'', deadline := Some (DateAt 3)\<rparr>,
       emptyObject\<lparr>title := Some ''C'', deadline := Some DateNull\<rparr>,
       emptyObject\<lparr>title := Some ''D'', deadline := Some (DateAt 1)\<rparr>]]
     0 ''all'' ''deadline'' = Inr (h', r) \<and>
     h' ! 0 = [emptyObject\<lparr>title := Some ''A''\<rparr>,
       emptyObject\<lparr>title := Some ''B'', deadline := Some (DateAt 3)\<rparr>,
       emptyObject\<lparr>title := Some ''C'', deadline := Some DateNull\<rparr>,
       emptyObject\<lparr>title := Some ''D'', deadline := Some (DateAt 1)\<rparr>])"
proof -
  let ?h = "[[emptyObject\<lparr>title := Some ''A''\<rparr>,
       emptyObject\<lparr>title := Some ''B'', deadline := Some (DateAt 3)\<rparr>,
       emptyObject\<lparr>title := Some ''C'', deadline := Some DateNull\<rparr>,
       emptyObject\<lparr>title := Some ''D'', deadline := Some (DateAt 1)\<rparr>]]"
  have h: "0 < length ?h" by simp
  have ev: "filteredAndSortedTasks (\<lambda>a b. 0) ?h 0 ''all'' ''deadline''
   = Inr ([[emptyObject\<lparr>title := Some ''A''\<rparr>,
            emptyObject\<lparr>title := Some ''B'', deadline := Some (DateAt 3)\<rparr>,
            emptyObject\<lparr>title := Some ''C'', deadline := Some DateNull\<rparr>,
            emptyObject\<lparr>title := Some ''D'', deadline := Some (DateAt 1)\<rparr>],
           [emptyObject\<lparr>title := Some ''D'', deadline := Some (DateAt 1)\<rparr>,
            emptyObject\<lparr>title := Some ''B'', deadline := Some (DateAt 3)\<rparr>,
            emptyObject\<lparr>title := Some ''A''\<rparr>,
            emptyObject\<lparr>title := Some ''C'', deadline := Some DateNull\<rparr>]], 1)"
    by (simp add: filteredAndSortedTasks_def alloc_def arraySort_def compareTasks_def
        truthyDate_def minusDate_def timeValue_def negative_def emptyObject_def)
  from deadline_sort_puts_undated_last[OF h, of "\<lambda>a b. 0" "''all''"] obtain h' r where
    "filteredAndSortedTasks (\<lambda>a b. 0) ?h 0 ''all'' ''deadline'' = Inr (h', r)"
    "h' ! 0 = ?h ! 0"
    by blast
  then have "\<exists>h' r. filteredAndSortedTasks (\<lambda>a b. 0) ?h 0 ''all'' ''deadline'' = Inr (h', r) \<and>
      h' ! 0 = ?h ! 0" by blast
  with ev show ?thesis by simp
qed

section \<open>The calendar buckets\<close>

lemma bucketOf_ensureKey [simp]: "bucketOf (ensureKey m k) k' = bucketOf m k'"
  by (simp add: bucketOf_def ensureKey_def split: option.split)

lemma bucketOf_empty [simp]: "bucketOf (\<lambda>k. None) k' = []"
  by (simp add: bucketOf_def)

lemma bucketOf_upd [simp]:
  "bucketOf (m(k \<mapsto> b)) k' = (if k' = k then b else bucketOf m k')"
  by (simp add: bucketOf_def)

lemma bucketOf_push:
  "bucketOf (push m k r) k' = (if k' = k then bucketOf m k @ [r] else bucketOf m k')"
  by (simp add: push_def Let_def)

lemma bucketOf_pushIfNew:
  "bucketOf (pushIfNew m k r) k' =
     (if k' = k \<and> fst r \<notin> set (map fst (bucketOf m k)) then bucketOf m k @ [r]
      else bucketOf m k')"
  by (simp add: pushIfNew_def Let_def includesRef_def)

lemma pushIfNew_distinct:
  "distinct (map fst (bucketOf m k')) \<Longrightarrow> distinct (map fst (bucketOf (pushIfNew m k r) k'))"
  by (auto simp: bucketOf_pushIfNew)

lemma pushIfNew_refs:
  "set (map fst (bucketOf (pushIfNew m k r) k')) \<subseteq> insert (fst r) (set (map fst (bucketOf m k')))"
  by (auto simp: bucketOf_pushIfNew)

lemma rangeLoop_buckets:
  assumes "\<forall>k. distinct (map fst (bucketOf m k))"
  shows "(\<forall>k. distinct (map fst (bucketOf (rangeLoop tz r d rangeEnd m) k))) \<and>
         (\<forall>k. set (map fst (bucketOf (rangeLoop tz r d rangeEnd m) k))
                \<subseteq> insert (fst r) (set (map fst (bucketOf m k))))"
  using assms
proof (induction tz r d rangeEnd m rule: rangeLoop.induct)
  case (1 tz r d rangeEnd m)
  show ?case
  proof (cases "d \<le> rangeEnd")
    case False
    then have "rangeLoop tz r d rangeEnd m = m" by (subst rangeLoop.simps) simp
    then show ?thesis using "1.prems" by auto
  next
    case True
    let ?m1 = "pushIfNew m (dayKey tz d) r"
    have d1: "\<forall>k. distinct (map fst (bucketOf ?m1 k))"
      using "1.prems" by (simp add: pushIfNew_distinct)
    from "1.IH"[OF True d1] have
      a: "\<forall>k. distinct (map fst (bucketOf (rangeLoop tz r (d + msPerDay) rangeEnd ?m1) k))" and
      b: "\<forall>k. set (map fst (bucketOf (rangeLoop tz r (d + msPerDay) rangeEnd ?m1) k))
            \<subseteq> insert (fst r) (set (map fst (bucketOf ?m1 k)))"
      by simp_all
    have c: "\<forall>k. set (map fst (bucketOf (rangeLoop tz r (d + msPerDay) rangeEnd ?m1) k))
            \<subseteq> insert (fst r) (set (map fst (bucketOf m k)))"
    proof
      fix k
      from b pushIfNew_refs[of m "dayKey tz d" r k]
      show "set (map fst (bucketOf (rangeLoop tz r (d + msPerDay) rangeEnd ?m1) k))
            \<subseteq> insert (fst r) (set (map fst (bucketOf m k)))"
        by blast
    qed
    have "rangeLoop tz r d rangeEnd m = rangeLoop tz r (d + msPerDay) rangeEnd ?m1"
      using True by (subst rangeLoop.simps) simp
    with a c show ?thesis by simp
  qed
qed

lemma repeatLoop_buckets:
  assumes "\<forall>k. distinct (map fst (bucketOf m k))"
  shows "(\<forall>k. distinct (map fst (bucketOf (repeatLoop tz r days calendarDays m) k))) \<and>
         (\<forall>k. set (map fst (bucketOf (repeatLoop tz r days calendarDays m) k))
                \<subseteq> insert (fst r) (set (map fst (bucketOf m k))))"
  using assms
proof (induction calendarDays arbitrary: m)
  case Nil
  then show ?case by auto
next
  case (Cons day rest)
  let ?m1 = "if getDayName tz day \<in> set days then pushIfNew m (dayKey tz day) r else m"
  have d1: "\<forall>k. distinct (map fst (bucketOf ?m1 k))"
    using Cons.prems by (simp add: pushIfNew_distinct)
  have s1: "\<forall>k. set (map fst (bucketOf ?m1 k)) \<subseteq> insert (fst r) (set (map fst (bucketOf m k)))"
    using pushIfNew_refs[of m "dayKey tz day" r] by auto
  from Cons.IH[OF d1] have
    a: "\<forall>k. distinct (map fst (bucketOf (repeatLoop tz r days rest ?m1) k))" and
    b: "\<forall>k. set (map fst (bucketOf (repeatLoop tz r days rest ?m1) k))
          \<subseteq> insert (fst r) (set (map fst (bucketOf ?m1 k)))"
    by simp_all
  from b s1 have "\<forall>k. set (map fst (bucketOf (repeatLoop tz r days rest ?m1) k))
          \<subseteq> insert (fst r) (set (map fst (bucketOf m k)))"
    by blast
  with a show ?case by simp
qed

lemma addStartDate_buckets:
  assumes "\<forall>k. distinct (map fst (bucketOf m k))"
    and "\<forall>k. fst r \<notin> set (map fst (bucketOf m k))"
  shows "(\<forall>k. distinct (map fst (bucketOf (addStartDate tz r m) k))) \<and>
         (\<forall>k. set (map fst (bucketOf (addStartDate tz r m) k))
                \<subseteq> insert (fst r) (set (map fst (bucketOf m k))))"
  using assms
  by (auto simp: addStartDate_def bucketOf_push split: option.split date_val.split)

lemma addDateRange_buckets:
  assumes "\<forall>k. distinct (map fst (bucketOf m k))"
  shows "(\<forall>k. distinct (map fst (bucketOf (addDateRange tz r m) k))) \<and>
         (\<forall>k. set (map fst (bucketOf (addDateRange tz r m) k))
                \<subseteq> insert (fst r) (set (map fst (bucketOf m k))))"
proof -
  have triv: "(\<forall>k. distinct (map fst (bucketOf m k))) \<and>
         (\<forall>k. set (map fst (bucketOf m k)) \<subseteq> insert (fst r) (set (map fst (bucketOf m k))))"
    using assms by auto
  show ?thesis
    unfolding addDateRange_def
    using triv rangeLoop_buckets[OF assms]
    by (simp split: option.split date_val.split)
qed

lemma addRepetition_buckets:
  assumes "\<forall>k. distinct (map fst (bucketOf m k))"
    and "addRepetition tz calendarDays r m = Inr m'"
  shows "(\<forall>k. distinct (map fst (bucketOf m' k))) \<and>
         (\<forall>k. set (map fst (bucketOf m' k)) \<subseteq> insert (fst r) (set (map fst (bucketOf m k))))"
proof -
  have triv: "(\<forall>k. distinct (map fst (bucketOf m k))) \<and>
         (\<forall>k. set (map fst (bucketOf m k)) \<subseteq> insert (fst r) (set (map fst (bucketOf m k))))"
    using assms(1) by auto
  from assms(2) consider "m' = m"
    | days where "m' = repeatLoop tz r days calendarDays m"
    by (auto simp: addRepetition_def split: if_splits option.splits)
  then show ?thesis
  proof cases
    case 1
    then show ?thesis using triv by simp
  next
    case 2
    then show ?thesis using repeatLoop_buckets[OF assms(1)] by simp
  qed
qed

lemma addTask_buckets:
  assumes d: "\<forall>k. distinct (map fst (bucketOf m k))"
    and f: "\<forall>k. fst r \<notin> set (map fst (bucketOf m k))"
    and run: "addTask tz calendarDays r m = Inr m'"
  shows "(\<forall>k. distinct (map fst (bucketOf m' k))) \<and>
         (\<forall>k. set (map fst (bucketOf m' k)) \<subseteq> insert (fst r) (set (map fst (bucketOf m k))))"
proof -
  let ?m1 = "addStartDate tz r m"
  let ?m2 = "addDateRange tz r ?m1"
  from addStartDate_buckets[OF d f] have
    d1: "\<forall>k. distinct (map fst (bucketOf ?m1 k))" and
    s1: "\<forall>k. set (map fst (bucketOf ?m1 k)) \<subseteq> insert (fst r) (set (map fst (bucketOf m k)))"
    by simp_all
  from addDateRange_buckets[OF d1] have
    d2: "\<forall>k. distinct (map fst (bucketOf ?m2 k))" and
    s2: "\<forall>k. set (map fst (bucketOf ?m2 k)) \<subseteq> insert (fst r) (set (map fst (bucketOf ?m1 k)))"
    by simp_all
  from run have "addRepetition tz calendarDays r ?m2 = Inr m'" by (simp add: addTask_def)
  from addRepetition_buckets[OF d2 this] have
    d3: "\<forall>k. distinct (map fst (bucketOf m' k))" and
    s3: "\<forall>k. set (map fst (bucketOf m' k)) \<subseteq> insert (fst r) (set (map fst (bucketOf ?m2 k)))"
    by simp_all
  from s1 s2 s3 have
    "\<forall>k. set (map fst (bucketOf m' k)) \<subseteq> insert (fst r) (set (map fst (bucketOf m k)))"
    by blast
  with d3 show ?thesis by simp
qed

lemma forEachTask_buckets:
  assumes "distinct (map fst tasks)"
    and "\<forall>k. distinct (map fst (bucketOf m k))"
    and "\<forall>k. set (map fst (bucketOf m k)) \<inter> set (map fst tasks) = {}"
    and "forEachTask tz calendarDays tasks m = Inr m'"
  shows "\<forall>k. distinct (map fst (bucketOf m' k))"
  using assms
proof (induction tasks arbitrary: m)
  case Nil
  then show ?case by simp
next
  case (Cons r rest)
  from Cons.prems(4) obtain m1 where
    m1: "addTask tz calendarDays r m = Inr m1" and
    rest: "forEachTask tz calendarDays rest m1 = Inr m'"
    by (auto split: sum.splits)
  have fresh: "\<forall>k. fst r \<notin> set (map fst (bucketOf m k))"
    using Cons.prems(3) by auto
  from addTask_buckets[OF Cons.prems(2) fresh m1] have
    d1: "\<forall>k. distinct (map fst (bucketOf m1 k))" and
    s1: "\<forall>k. set (map fst (bucketOf m1 k)) \<subseteq> insert (fst r) (set (map fst (bucketOf m k)))"
    by simp_all
  have "fst r \<notin> set (map fst rest)" and dr: "distinct (map fst rest)"
    using Cons.prems(1) by simp_all
  have "\<forall>k. set (map fst (bucketOf m1 k)) \<inter> set (map fst rest) = {}"
  proof
    fix k
    have "set (map fst (bucketOf m1 k)) \<subseteq> insert (fst r) (set (map fst (bucketOf m k)))"
      using s1 by simp
    moreover have "set (map fst (bucketOf m k)) \<inter> set (map fst rest) = {}"
      using Cons.prems(3) by auto
    ultimately show "set (map fst (bucketOf m1 k)) \<inter> set (map fst rest) = {}"
      using \<open>fst r \<notin> set (map fst rest)\<close> by blast
  qed
  from Cons.IH[OF dr d1 this rest] show ?case .
qed

text \<open>
  C6. For every collection (each task object held once) and every list of calendar
  days, each task appears at most once in the bucket of any day, also when several of
  the rules (start date, date range, repetition day) put it there.
\<close>

theorem bucket_holds_task_once:
  assumes "distinct (map fst tasks)"
    and "tasksByDate tz calendarDays tasks = Inr m"
  shows "distinct (map fst (bucketOf m day))"
proof -
  have "\<forall>k. distinct (map fst (bucketOf Map.empty k))"
    and "\<forall>k. set (map fst (bucketOf Map.empty k)) \<inter> set (map fst tasks) = {}"
    by (simp_all add: bucketOf_def)
  from forEachTask_buckets[OF assms(1) this] assms(2) show ?thesis
    by (simp add: tasksByDate_def)
qed

lemma calendar_example:
  assumes "startDate g = Some (DateAt 0)" and "endDate g = Some (DateAt 172800000)"
    and "taskType g = Some TASK_TYPE_DATE_RANGE" and "isRepetitive g = Some True"
    and "repetitionDays g = Some [''friday'']"
    and "startDate c = Some (DateAt 86400000)" and "taskType c = Some TASK_TYPE_ONE_DAY"
    and "isRepetitive c = None"
  shows "\<exists>m. tasksByDate 0 [0, 86400000, 172800000] [(7, g), (8, c)] = Inr m \<and>
       map fst (bucketOf m 0) = [7] \<and> map fst (bucketOf m 1) = [7, 8] \<and>
       map fst (bucketOf m 2) = [7]"
  using assms
  by (simp add: tasksByDate_def addTask_def addStartDate_def addDateRange_def
      addRepetition_def timeValue_def bucketOf_push bucketOf_pushIfNew
      dayKey_def getDayName_def getDay_def msPerDay_def)

text \<open>
  C6 at a repetitive task whose date range, Thursday to Saturday, covers its repetition
  day, Friday, together with a one-day task on that Friday: the bucket of the Friday
  holds each of the two once.
\<close>

theorem bucket_holds_task_once_witness:
  "\<exists>m. tasksByDate 0 [0, 86400000, 172800000]
         [(7, emptyObject\<lparr>title := Some ''Gym'', isRepetitive := Some True,
                repetitionDays := Some [''friday''], taskType := Some TASK_TYPE_DATE_RANGE,
                startDate := Some (DateAt 0), endDate := Some (DateAt 172800000)\<rparr>),
          (8, emptyObject\<lparr>title := Some ''Call'', taskType := Some TASK_TYPE_ONE_DAY,
                startDate := Some (DateAt 86400000)\<rparr>)] = Inr m \<and>
       map fst (bucketOf m 0) = [7] \<and>
       map fst (bucketOf m 1) = [7, 8] \<and>
       map fst (bucketOf m 2) = [7] \<and>
       distinct (map fst (bucketOf m 1))"
proof -
  let ?g = "emptyObject\<lparr>title := Some ''Gym'', isRepetitive := Some True,
                repetitionDays := Some [''friday''], taskType := Some TASK_TYPE_DATE_RANGE,
                startDate := Some (DateAt 0), endDate := Some (DateAt 172800000)\<rparr>"
  let ?c = "emptyObject\<lparr>title := Some ''Call'', taskType := Some TASK_TYPE_ONE_DAY,
                startDate := Some (DateAt 86400000)\<rparr>"
  have "\<exists>m. tasksByDate 0 [0, 86400000, 172800000] [(7, ?g), (8, ?c)] = Inr m \<and>
       map fst (bucketOf m 0) = [7] \<and> map fst (bucketOf m 1) = [7, 8] \<and>
       map fst (bucketOf m 2) = [7]"
    by (rule calendar_example) (simp_all add: emptyObject_def)
  then obtain m where
    m: "tasksByDate 0 [0, 86400000, 172800000] [(7, ?g), (8, ?c)] = Inr m"
      "map fst (bucketOf m 0) = [7]" "map fst (bucketOf m 1) = [7, 8]"
      "map fst (bucketOf m 2) = [7]"
    by (elim exE conjE)
  have d: "distinct (map fst [(7 :: nat, ?g), (8, ?c)])" by simp
  from bucket_holds_task_once[OF d m(1), of 1] m show ?thesis by (intro exI[of _ m]) simp
qed

section \<open>Validation\<close>

text \<open>
  C7. \<open>validateTask({title: "ab"})\<close> yields an error for the title,
  \<open>validateTask({title: "Buy milk", isRepetitive: true, repetitionDays: []})\<close> yields
  an error for the repetition days, and \<open>validateTask({title: "Buy milk"})\<close> yields the
  empty mapping.
\<close>

theorem validateTask_examples:
  "validateTask e (emptyObject\<lparr>title := Some ''ab''\<rparr>) = [''title'' \<mapsto> TITLE_MIN_LENGTH] \<and>
   validateTask e (emptyObject\<lparr>title := Some ''Buy milk'', isRepetitive := Some True,
       repetitionDays := Some []\<rparr>) = [''repetitionDays'' \<mapsto> REPETITION_DAYS_REQUIRED] \<and>
   validateTask e (emptyObject\<lparr>title := Some ''Buy milk''\<rparr>) = Map.empty \<and>
   \<not> hasErrors (validateTask e (emptyObject\<lparr>title := Some ''Buy milk''\<rparr>))"
  by (simp add: validateTask_def validateTitle_def validateDescription_def validateDeadline_def
      validateRepetitionDays_def validateDateRange_def setError_def hasErrors_def trim_def
      isWhiteSpace_def emptyObject_def)

text \<open>C7 with the clock at 2023-11-14 22:13:20 UTC.\<close>

theorem validateTask_examples_witness:
  "validateTask \<lparr>clock = \<lambda>n. 1700000000000, tzOffset = 0, random36 = ''r''\<rparr>
     (emptyObject\<lparr>title := Some ''ab''\<rparr>) ''title'' = Some TITLE_MIN_LENGTH \<and>
   validateTask \<lparr>clock = \<lambda>n. 1700000000000, tzOffset = 0, random36 = ''r''\<rparr>
     (emptyObject\<lparr>title := Some ''Buy milk'', isRepetitive := Some True,
        repetitionDays := Some []\<rparr>) ''repetitionDays'' = Some REPETITION_DAYS_REQUIRED \<and>
   dom (validateTask \<lparr>clock = \<lambda>n. 1700000000000, tzOffset = 0, random36 = ''r''\<rparr>
     (emptyObject\<lparr>title := Some ''Buy milk''\<rparr>)) = {}"
  using validateTask_examples[of "\<lparr>clock = \<lambda>n. 1700000000000, tzOffset = 0, random36 = ''r''\<rparr>"]
  by simp

section \<open>The timer\<close>

lemma ulpOf_small [simp]: "a < 9007199254740992 \<Longrightarrow> ulpOf a = 1"
  by (subst ulpOf.simps) simp

lemma ulpOf_next [simp]:
  "9007199254740992 \<le> a \<Longrightarrow> a < 18014398509481984 \<Longrightarrow> ulpOf a = 2"
  by (subst ulpOf.simps) simp

lemma roundMagnitude_exact:
  assumes "a \<le> 9007199254740992"
  shows "roundMagnitude a = a"
proof (cases "a < 9007199254740992")
  case True
  then show ?thesis by (simp add: roundMagnitude_def)
next
  case False
  with assms have "a = 9007199254740992" by simp
  then show ?thesis by (simp add: roundMagnitude_def)
qed

lemma roundToDouble_exact:
  "- 9007199254740992 \<le> x \<Longrightarrow> x \<le> 9007199254740992 \<Longrightarrow> roundToDouble x = x"
  by (simp add: roundToDouble_def roundMagnitude_exact)

lemma plusOne_exact:
  "- 9007199254740993 \<le> t \<Longrightarrow> t < 9007199254740992 \<Longrightarrow> plusOne t = t + 1"
  by (simp add: plusOne_def roundToDouble_exact)

lemma timerDo_intervals:
  assumes "liveIntervals tm = (case intervalRef tm of None \<Rightarrow> [] | Some h \<Rightarrow> [h])"
    and "(timerState tm = TIMER_RUNNING) = (intervalRef tm \<noteq> None)"
  shows "liveIntervals (timerDo tm s)
           = (case intervalRef (timerDo tm s) of None \<Rightarrow> [] | Some h \<Rightarrow> [h]) \<and>
         (timerState (timerDo tm s) = TIMER_RUNNING) = (intervalRef (timerDo tm s) \<noteq> None)"
  using assms
  by (cases s)
    (auto simp: start_def tick_def pause_def clearRef_def render_def setTimeDirect_def
      split: option.splits)

lemma runTimer_intervals:
  assumes "liveIntervals tm = (case intervalRef tm of None \<Rightarrow> [] | Some h \<Rightarrow> [h])"
    and "(timerState tm = TIMER_RUNNING) = (intervalRef tm \<noteq> None)"
  shows "liveIntervals (runTimer tm steps)
           = (case intervalRef (runTimer tm steps) of None \<Rightarrow> [] | Some h \<Rightarrow> [h]) \<and>
         (timerState (runTimer tm steps) = TIMER_RUNNING) = (intervalRef (runTimer tm steps) \<noteq> None)"
  using assms
proof (induction steps arbitrary: tm)
  case Nil
  then show ?case by (simp add: runTimer_def)
next
  case (Cons s steps)
  from timerDo_intervals[OF Cons.prems, of s] have
    "liveIntervals (timerDo tm s)
       = (case intervalRef (timerDo tm s) of None \<Rightarrow> [] | Some h \<Rightarrow> [h])"
    "(timerState (timerDo tm s) = TIMER_RUNNING) = (intervalRef (timerDo tm s) \<noteq> None)"
    by simp_all
  from Cons.IH[OF this] show ?case by (simp add: runTimer_def)
qed

lemma useTimer_intervals:
  "liveIntervals (runTimer (useTimer initial) steps)
     = (case intervalRef (runTimer (useTimer initial) steps) of None \<Rightarrow> [] | Some h \<Rightarrow> [h])"
  using runTimer_intervals[of "useTimer initial" steps] by (simp add: useTimer_def)

lemma reset_effect:
  "time (reset tm) = initialTime tm \<and> timerState (reset tm) = TIMER_IDLE \<and>
   intervalRef (reset tm) = None"
  by (simp add: reset_def clearRef_def split: option.split)

lemma reset_clears_intervals:
  assumes "liveIntervals tm = (case intervalRef tm of None \<Rightarrow> [] | Some h \<Rightarrow> [h])"
  shows "liveIntervals (reset tm) = []"
  using assms by (simp add: reset_def clearRef_def split: option.splits)

lemma tick_without_intervals: "liveIntervals tm = [] \<Longrightarrow> tick tm = tm"
  by (simp add: tick_def)

lemma initialTime_timerDo:
  "initialTime (timerDo tm s) = (case s of Render arg \<Rightarrow> arg | _ \<Rightarrow> initialTime tm)"
  by (cases s)
    (simp_all add: start_def tick_def pause_def clearRef_def render_def setTimeDirect_def
      split: option.split)

lemma initialTime_same_argument:
  assumes "\<forall>arg. Render arg \<in> set steps \<longrightarrow> arg = initialTime tm"
  shows "initialTime (runTimer tm steps) = initialTime tm"
  using assms
proof (induction steps arbitrary: tm)
  case Nil
  then show ?case by (simp add: runTimer_def)
next
  case (Cons s steps)
  have "initialTime (timerDo tm s) = (case s of Render arg \<Rightarrow> arg | _ \<Rightarrow> initialTime tm)"
    by (rule initialTime_timerDo)
  then have a: "initialTime (timerDo tm s) = initialTime tm"
    using Cons.prems by (auto split: timerStep.split)
  have "\<forall>arg. Render arg \<in> set steps \<longrightarrow> arg = initialTime (timerDo tm s)"
    using Cons.prems a by simp
  from Cons.IH[OF this] a show ?case by (simp add: runTimer_def)
qed

lemma runTimer_append: "runTimer tm (xs @ ys) = runTimer (runTimer tm xs) ys"
  by (simp add: runTimer_def)

lemma initialTime_latest_render:
  assumes "\<forall>arg'. Render arg' \<notin> set rest"
  shows "initialTime (runTimer tm (steps @ Render arg # rest)) = arg"
proof -
  let ?tm1 = "render arg (runTimer tm steps)"
  have "runTimer tm (steps @ Render arg # rest) = runTimer ?tm1 rest"
    by (simp add: runTimer_def)
  moreover have "initialTime (runTimer ?tm1 rest) = initialTime ?tm1"
    using assms by (intro initialTime_same_argument) simp
  ultimately show ?thesis by (simp add: render_def)
qed

lemma scenario_exact:
  assumes "- 9007199254740992 \<le> initial" and "initial + 5 \<le> 9007199254740992"
  shows "time (runTimer (useTimer initial) [Start, Tick, Tick, Tick, Tick, Tick, Pause])
           = initial + 5 \<and>
         timerState (runTimer (useTimer initial) [Start, Tick, Tick, Tick, Tick, Tick, Pause])
           = TIMER_PAUSED"
proof -
  show ?thesis
    using assms
    by (simp add: runTimer_def useTimer_def start_def tick_def pause_def clearRef_def
        plusOne_exact)
qed

text \<open>
  C8, as amended. For every timer made with some initial time, after any sequence of
  start, tick and pause steps, with whatever renders and \<open>setTime\<close> calls the calling
  component makes in between, reset sets the time to the \<open>initialTime\<close> argument of the
  latest render of the hook, clears the interval, so that later ticks change nothing,
  and returns the state to idle. The time it sets is the initial time of the first
  render when every render passed that same argument, and the argument of the last
  render otherwise. After start, five ticks and pause with no change of argument the
  time is the initial time plus 5 as long as the additions stay within \<open>2^53\<close>, which
  is 5 for the default initial time 0, and reset returns it to the initial time.
\<close>

theorem reset_returns_to_latest_argument:
  "time (reset (runTimer (useTimer initial) steps))
     = initialTime (runTimer (useTimer initial) steps) \<and>
   timerState (reset (runTimer (useTimer initial) steps)) = TIMER_IDLE \<and>
   intervalRef (reset (runTimer (useTimer initial) steps)) = None \<and>
   liveIntervals (reset (runTimer (useTimer initial) steps)) = [] \<and>
   tick (reset (runTimer (useTimer initial) steps)) = reset (runTimer (useTimer initial) steps) \<and>
   ((\<forall>arg. Render arg \<in> set steps \<longrightarrow> arg = initial) \<longrightarrow>
      time (reset (runTimer (useTimer initial) steps)) = initial) \<and>
   ((\<forall>arg'. Render arg' \<notin> set rest) \<longrightarrow>
      time (reset (runTimer (useTimer initial) (steps @ Render arg # rest))) = arg) \<and>
   (- 9007199254740992 \<le> initial \<and> initial + 5 \<le> 9007199254740992 \<longrightarrow>
      time (runTimer (useTimer initial) [Start, Tick, Tick, Tick, Tick, Tick, Pause])
        = initial + 5 \<and>
      timerState (runTimer (useTimer initial) [Start, Tick, Tick, Tick, Tick, Tick, Pause])
        = TIMER_PAUSED \<and>
      time (reset (runTimer (useTimer initial) [Start, Tick, Tick, Tick, Tick, Tick, Pause]))
        = initial) \<and>
   time (runTimer (useTimer 0) [Start, Tick, Tick, Tick, Tick, Tick, Pause]) = 5 \<and>
   time (reset (runTimer (useTimer 0) [Start, Tick, Tick, Tick, Tick, Tick, Pause])) = 0"
proof -
  let ?scenario = "[Start, Tick, Tick, Tick, Tick, Tick, Pause]"
  have live: "liveIntervals (reset (runTimer (useTimer i) xs)) = []" for i xs
    by (rule reset_clears_intervals) (rule useTimer_intervals)
  have same: "time (reset (runTimer (useTimer i) xs)) = i"
    if "\<forall>arg. Render arg \<in> set xs \<longrightarrow> arg = i" for i xs
  proof -
    have "\<forall>arg. Render arg \<in> set xs \<longrightarrow> arg = initialTime (useTimer i)"
      using that by (simp add: useTimer_def)
    from initialTime_same_argument[OF this] show ?thesis
      by (simp add: reset_effect useTimer_def)
  qed
  have sc: "time (reset (runTimer (useTimer i) ?scenario)) = i" for i
    by (rule same) simp
  have zero: "time (runTimer (useTimer 0) ?scenario) = 5"
    using scenario_exact[of 0] by simp
  show ?thesis
    using live[of initial steps] tick_without_intervals[OF live[of initial steps]]
      same[of steps initial] initialTime_latest_render[of rest "useTimer initial" steps arg]
      scenario_exact[of initial] sc[of initial] sc[of 0] zero
    by (simp add: reset_effect)
qed

text \<open>
  C8 at a timer made with the initial time 42 and never rendered with another
  argument: started, run for two seconds, paused, started again and run for one more
  second, it shows 45, and reset returns it to 42 with no interval left; rendered with
  the argument 43 after the first second, reset sets 43.
\<close>

theorem reset_returns_to_latest_argument_witness:
  "time (runTimer (useTimer 42) [Start, Tick, Tick, Pause, Tick, Start, Tick]) = 45 \<and>
   time (reset (runTimer (useTimer 42) [Start, Tick, Tick, Pause, Tick, Start, Tick])) = 42 \<and>
   timerState (reset (runTimer (useTimer 42) [Start, Tick, Tick, Pause, Tick, Start, Tick]))
     = TIMER_IDLE \<and>
   liveIntervals (reset (runTimer (useTimer 42) [Start, Tick, Tick, Pause, Tick, Start, Tick]))
     = [] \<and>
   time (reset (runTimer (useTimer 42) ([Start, Tick] @ Render 43 # [Tick, Pause]))) = 43 \<and>
   time (runTimer (useTimer 42) [Start, Tick, Tick, Tick, Tick, Tick, Pause]) = 47"
proof -
  have ev: "time (runTimer (useTimer 42) [Start, Tick, Tick, Pause, Tick, Start, Tick]) = 45"
    by (simp add: runTimer_def useTimer_def start_def tick_def pause_def clearRef_def
        plusOne_exact)
  show ?thesis
    using ev
      reset_returns_to_latest_argument[where initial = 42
        and steps = "[Start, Tick, Tick, Pause, Tick, Start, Tick]" and rest = "[]" and arg = 0]
      reset_returns_to_latest_argument[where initial = 42
        and steps = "[Start, Tick]" and rest = "[Tick, Pause]" and arg = 43]
    by simp
qed

text \<open>
  C8 as stated fails. The \<open>Timer\<close> component passes \<open>task.elapsedTime\<close> as the argument
  and rewrites it after every tick, followed by its \<open>setTime(initialTime)\<close>. A timer made
  with the initial time 42 and run for three seconds in this way is at 45, and reset
  sets the time to 45, the argument of the latest render, not to 42.
\<close>

theorem reset_construction_time_counterexample:
  "initialTime (useTimer 42) = 42 \<and>
   time (runTimer (useTimer 42)
     [Start, Tick, Render 43, SetTime 43, Tick, Render 44, SetTime 44, Tick, Render 45,
      SetTime 45, Pause]) = 45 \<and>
   time (reset (runTimer (useTimer 42)
     [Start, Tick, Render 43, SetTime 43, Tick, Render 44, SetTime 44, Tick, Render 45,
      SetTime 45, Pause])) = 45 \<and>
   time (reset (runTimer (useTimer 42)
     [Start, Tick, Render 43, SetTime 43, Tick, Render 44, SetTime 44, Tick, Render 45,
      SetTime 45, Pause])) \<noteq> 42"
  by (simp add: runTimer_def useTimer_def start_def tick_def pause_def clearRef_def reset_def
      render_def setTimeDirect_def plusOne_exact)

section \<open>Persistence\<close>

text \<open>
  C9. For every value that JSON serializes (\<open>JSON.stringify\<close> gives a text that
  \<open>JSON.parse\<close> reads back as the value) and every key, if \<open>saveToStorage\<close> succeeds,
  then \<open>loadFromStorage\<close> of the key returns the value.
\<close>

theorem save_then_load_roundtrip:
  assumes "stringify x = JText s" and "parse s = Some x"
    and "saveToStorage stringify st key x = (True, st')"
  shows "loadFromStorage parse st' key defaultValue = x"
proof -
  from assms(1,3) obtain its where
    s: "setItem st key s = Some st'"
    by (auto simp: saveToStorage_def split: option.splits)
  then have "\<not> disabled st'" and "map_of (items st') key = Some s"
    by (auto simp: setItem_def Let_def split: if_splits)
  then show ?thesis using assms(2) by (simp add: loadFromStorage_def getItem_def)
qed

text \<open>C9 at the value \<open>true\<close>, saved over an earlier item of the same key.\<close>

theorem save_then_load_roundtrip_witness:
  "saveToStorage (\<lambda>b. JText (if b then ''true'' else ''false''))
      \<lparr>items = [(''task-tracker-tasks'', ''[]'')], quota = 5000000, disabled = False\<rparr>
      ''task-tracker-tasks'' True
     = (True, \<lparr>items = [(''task-tracker-tasks'', ''true'')], quota = 5000000, disabled = False\<rparr>) \<and>
   loadFromStorage
      (\<lambda>s. if s = ''true'' then Some True else if s = ''false'' then Some False else None)
      \<lparr>items = [(''task-tracker-tasks'', ''true'')], quota = 5000000, disabled = False\<rparr>
      ''task-tracker-tasks'' False
     = True"
proof -
  have h3: "saveToStorage (\<lambda>b. JText (if b then ''true'' else ''false''))
      \<lparr>items = [(''task-tracker-tasks'', ''[]'')], quota = 5000000, disabled = False\<rparr>
      ''task-tracker-tasks'' True
     = (True, \<lparr>items = [(''task-tracker-tasks'', ''true'')], quota = 5000000, disabled = False\<rparr>)"
    by (simp add: saveToStorage_def setItem_def storageSize_def)
  show ?thesis
    using h3
      save_then_load_roundtrip[where stringify = "\<lambda>b. JText (if b then ''true'' else ''false'')"
        and parse = "\<lambda>s. if s = ''true'' then Some True else if s = ''false'' then Some False
          else None"
        and x = True and s = "''true''" and key = "''task-tracker-tasks''"
        and st = "\<lparr>items = [(''task-tracker-tasks'', ''[]'')], quota = 5000000,
          disabled = False\<rparr>"
        and st' = "\<lparr>items = [(''task-tracker-tasks'', ''true'')], quota = 5000000,
          disabled = False\<rparr>"
        and defaultValue = False]
    by simp
qed

end
